theory Spec2Isabelle
  imports Complex_Main "HOL-Library.Sublist"
begin

section \<open>Python values used by the workout pipeline\<close>

text \<open>
  The development embeds \<^verbatim>\<open>src/garmin_client.py\<close> (the duration and target parsers,
  the step encoder and the uploader) and \<^verbatim>\<open>analyze_fitness\<close> of \<^verbatim>\<open>src/coach.py\<close>.

  Conventions of the embedding:
  \<^item> A Python \<^verbatim>\<open>str\<close> is a \<open>string\<close>; every \<open>char\<close> stands for the code point
    with the same number, so the strings covered are those over code points 0..255.
    In that range \<^verbatim>\<open>\d\<close> matches the ten ASCII digits only.
  \<^item> A Python \<^verbatim>\<open>int\<close> is an \<open>int\<close>.  The limit of 4300 digits that recent
    interpreters put on \<^verbatim>\<open>int(str)\<close> is not modelled.
  \<^item> A finite Python \<^verbatim>\<open>float\<close> is the exact rational it denotes: binary64
    rounding and overflow to infinity are not modelled.  The infinities and NaN that
    \<^verbatim>\<open>float("inf")\<close> and \<^verbatim>\<open>float("nan")\<close> produce are values of their own.
    The model therefore differs from the code where rounding decides the result: a
    literal beyond the binary64 range (\<^verbatim>\<open>1e400\<close> is infinite in the code, finite
    here), a numeral of more than fifteen digits, and a product that binary64 rounds
    below an integer (\<^verbatim>\<open>2.05 min\<close> is 122 seconds in the code, 123 here).  The general
    theorems below keep to inputs where the two agree, and say so.
  \<^item> A raised exception is the \<open>Inl\<close> of a sum; only the class of a built-in
    exception is kept.
\<close>

datatype exn =
    ValueError
  | OverflowError
  | ZeroDivisionError
  | RuntimeError string
  | LibraryError string

datatype pyfloat = Fin rat | PosInf | NegInf | NaN

datatype num = IntNum int | FloatNum pyfloat

subsection \<open>Characters and strings\<close>

definition is_digit :: "char \<Rightarrow> bool" where
  "is_digit c = (c \<in> set ''0123456789'')"

text \<open>\<^verbatim>\<open>str.isspace\<close> on the code points below 256; the class \<^verbatim>\<open>\s\<close> of \<^verbatim>\<open>re\<close> is the same.\<close>

definition is_space :: "char \<Rightarrow> bool" where
  "is_space c = ((of_char c :: nat) \<in> set [9, 10, 11, 12, 13, 28, 29, 30, 31, 32, 133, 160])"

text \<open>\<^verbatim>\<open>str.lower\<close>: A..Z, and the capital letters of Latin-1 (0xC0..0xDE without 0xD7).\<close>

definition lower_char :: "char \<Rightarrow> char" where
  "lower_char c =
     (let n = (of_char c :: nat)
      in if (65 \<le> n \<and> n \<le> 90) \<or> (192 \<le> n \<and> n \<le> 214) \<or> (216 \<le> n \<and> n \<le> 222)
         then char_of (n + 32) else c)"

definition lower :: "string \<Rightarrow> string" where
  "lower s = map lower_char s"

definition strip :: "string \<Rightarrow> string" where
  "strip s = rev (dropWhile is_space (rev (dropWhile is_space s)))"

text \<open>
  \<^verbatim>\<open>int(str)\<close> and \<^verbatim>\<open>float(str)\<close> skip less than \<^verbatim>\<open>str.strip\<close>: the white space
  of C (tab to carriage return, and the blank) and, turned into blanks beforehand, the
  white space above code point 127.  The separators 0x1C..0x1F are not skipped.
\<close>

definition is_num_space :: "char \<Rightarrow> bool" where
  "is_num_space c = ((of_char c :: nat) \<in> set [9, 10, 11, 12, 13, 32, 133, 160])"

definition num_strip :: "string \<Rightarrow> string" where
  "num_strip s = rev (dropWhile is_num_space (rev (dropWhile is_num_space s)))"

text \<open>\<^verbatim>\<open>s.split(sep)\<close> for a one-character separator: the first part and the others.\<close>

fun split :: "char \<Rightarrow> string \<Rightarrow> string \<times> string list" where
  "split sep [] = ([], [])"
| "split sep (c # cs) =
     (let (p, ps) = split sep cs
      in if c = sep then ([], p # ps) else (c # p, ps))"

fun startswith :: "string \<Rightarrow> string \<Rightarrow> bool" where
  "startswith s [] = True"
| "startswith [] (p # ps) = False"
| "startswith (c # cs) (p # ps) = (c = p \<and> startswith cs ps)"

text \<open>\<^verbatim>\<open>sub in s\<close>.\<close>

fun contains :: "string \<Rightarrow> string \<Rightarrow> bool" where
  "contains [] sub = (sub = [])"
| "contains (c # cs) sub = (startswith (c # cs) sub \<or> contains cs sub)"

subsection \<open>\<^verbatim>\<open>int(str)\<close> and \<^verbatim>\<open>float(str)\<close>\<close>

definition digit_val :: "char \<Rightarrow> int" where
  "digit_val c = int (of_char c) - 48"

definition digits_val :: "string \<Rightarrow> int" where
  "digits_val ds = foldl (\<lambda>a c. 10 * a + digit_val c) 0 ds"

text \<open>
  Underscores in a numeric literal: allowed only after a digit and only before a digit
  (the loop of the interpreter that walks the text with the previous character).
\<close>

fun underscores_ok :: "char \<Rightarrow> string \<Rightarrow> bool" where
  "underscores_ok prev [] = (prev \<noteq> CHR ''_'')"
| "underscores_ok prev (c # cs) =
     ((if c = CHR ''_'' then is_digit prev
       else if prev = CHR ''_'' then is_digit c else True)
      \<and> underscores_ok c cs)"

definition is_sign :: "char \<Rightarrow> bool" where
  "is_sign c = (c = CHR ''+'' \<or> c = CHR ''-'')"

definition unsigned :: "string \<Rightarrow> string" where
  "unsigned t = (case t of [] \<Rightarrow> [] | c # r \<Rightarrow> if is_sign c then r else t)"

definition negative :: "string \<Rightarrow> bool" where
  "negative t = (case t of [] \<Rightarrow> False | c # r \<Rightarrow> c = CHR ''-'')"

definition py_int :: "string \<Rightarrow> exn + int" where
  "py_int s =
     (let t = num_strip s; b = unsigned t
      in if b \<noteq> [] \<and> list_all (\<lambda>c. is_digit c \<or> c = CHR ''_'') b
            \<and> underscores_ok (CHR 0x00) b
         then Inr ((if negative t then - 1 else 1) * digits_val (filter is_digit b))
         else Inl ValueError)"

text \<open>The exponent part of a float literal: absent, or e/E, an optional sign, digits.\<close>

definition exponent :: "string \<Rightarrow> int option" where
  "exponent r =
     (case r of
        [] \<Rightarrow> Some 0
      | c # r1 \<Rightarrow>
          if c = CHR ''e'' \<or> c = CHR ''E''
          then (let ds = unsigned r1
                in if ds \<noteq> [] \<and> list_all is_digit ds
                   then Some ((if negative r1 then - 1 else 1) * digits_val ds)
                   else None)
          else None)"

definition scale10 :: "int \<Rightarrow> int \<Rightarrow> rat" where
  "scale10 m e = (if 0 \<le> e then of_int m * 10 ^ nat e else of_int m / 10 ^ nat (- e))"

text \<open>An unsigned decimal literal: digits, an optional point and digits, an exponent.\<close>

definition float_body :: "string \<Rightarrow> rat option" where
  "float_body b =
     (let ip = takeWhile is_digit b;
          r1 = dropWhile is_digit b;
          dot = startswith r1 ''.'';
          fp = (if dot then takeWhile is_digit (tl r1) else []);
          r2 = (if dot then dropWhile is_digit (tl r1) else r1)
      in if ip = [] \<and> fp = [] then None
         else map_option (\<lambda>e. scale10 (digits_val (ip @ fp)) (e - int (length fp)))
                (exponent r2))"

definition py_float :: "string \<Rightarrow> exn + pyfloat" where
  "py_float s =
     (let t = num_strip s
      in if underscores_ok (CHR 0x00) t
         then
           (let u = filter (\<lambda>c. c \<noteq> CHR ''_'') t;
                b = unsigned u;
                lb = lower b
            in if lb = ''inf'' \<or> lb = ''infinity''
               then Inr (if negative u then NegInf else PosInf)
               else if lb = ''nan'' then Inr NaN
               else (case float_body b of
                       None \<Rightarrow> Inl ValueError
                     | Some q \<Rightarrow> Inr (Fin (if negative u then - q else q))))
         else Inl ValueError)"

text \<open>\<^verbatim>\<open>int(x)\<close> of a float: truncation toward zero; infinities and NaN raise.\<close>

definition trunc :: "rat \<Rightarrow> int" where
  "trunc q = (if q < 0 then \<lceil>q\<rceil> else \<lfloor>q\<rfloor>)"

fun int_of_float :: "pyfloat \<Rightarrow> exn + int" where
  "int_of_float (Fin q) = Inr (trunc q)"
| "int_of_float PosInf = Inl OverflowError"
| "int_of_float NegInf = Inl OverflowError"
| "int_of_float NaN = Inl ValueError"

text \<open>Multiplication of a float by a positive finite constant.\<close>

fun fmul :: "pyfloat \<Rightarrow> rat \<Rightarrow> pyfloat" where
  "fmul (Fin q) k = Fin (q * k)"
| "fmul PosInf k = PosInf"
| "fmul NegInf k = NegInf"
| "fmul NaN k = NaN"

subsection \<open>The regular expressions of the parsers\<close>

text \<open>
  The patterns are matched by \<^verbatim>\<open>re.match\<close> with \<^verbatim>\<open>^\<close> and \<^verbatim>\<open>$\<close>.  The anchor
  \<^verbatim>\<open>$\<close> holds at the end of the text and before a newline that ends the text.
\<close>

definition at_end :: "string \<Rightarrow> bool" where
  "at_end r = (r = [] \<or> r = [CHR 0x0A])"

text \<open>
  An alternation \<^verbatim>\<open>(u1|u2|...)$\<close> at the rest \<open>r\<close> of the text: the first alternative,
  in the order written, after which the anchor holds.
\<close>

definition match_units :: "string list \<Rightarrow> string \<Rightarrow> string option" where
  "match_units alts r = find (\<lambda>u. startswith r u \<and> at_end (drop (length u) r)) alts"

definition is_numch :: "char \<Rightarrow> bool" where
  "is_numch c = (is_digit c \<or> c = CHR ''.'')"

text \<open>
  \<^verbatim>\<open>^([\d.]+)\s*(u1|u2|...)$\<close>.  The three character classes are disjoint from each
  other and from the first letters of the units, so a match can only take the longest
  run of each class; the result is groups 1 and 2.
\<close>

definition re_number_unit :: "string list \<Rightarrow> string \<Rightarrow> (string \<times> string) option" where
  "re_number_unit alts s =
     (let g1 = takeWhile is_numch s;
          r = dropWhile is_space (dropWhile is_numch s)
      in if g1 = [] then None else map_option (Pair g1) (match_units alts r))"

definition dist_units :: "string list" where
  "dist_units = [''m'', ''km'', ''mi'', ''mile'', ''miles'']"

definition time_units :: "string list" where
  "time_units =
     [''min'', ''mins'', ''minute'', ''minutes'', ''sec'', ''secs'', ''second'', ''seconds'', ''s'']"

text \<open>
  \<^verbatim>\<open>(?:/?(mi|km))?$\<close> at the rest of the text: \<open>None\<close> when it does not match, else
  group 3 (itself \<open>None\<close> when the optional part is skipped).
\<close>

definition pace_suffix :: "string \<Rightarrow> string option option" where
  "pace_suffix r =
     (case match_units [''mi'', ''km''] (if startswith r ''/'' then tl r else r) of
        Some u \<Rightarrow> Some (Some u)
      | None \<Rightarrow> if at_end r then Some None else None)"

text \<open>\<^verbatim>\<open>^(\d+):(\d+)(?:/?(mi|km))?$\<close>: groups 1, 2 and 3.\<close>

definition re_pace :: "string \<Rightarrow> (string \<times> string \<times> string option) option" where
  "re_pace s =
     (let g1 = takeWhile is_digit s;
          r1 = dropWhile is_digit s;
          g2 = takeWhile is_digit (tl r1);
          r2 = dropWhile is_digit (tl r1)
      in if g1 \<noteq> [] \<and> startswith r1 '':'' \<and> g2 \<noteq> []
         then map_option (\<lambda>g3. (g1, g2, g3)) (pace_suffix r2)
         else None)"

section \<open>DurationParser: \<^verbatim>\<open>GarminClient._parse_duration\<close>\<close>

text \<open>
  The parsers return a pair of a type dictionary \<^verbatim>\<open>{"id": .., "key": ..}\<close> and a value.
\<close>

type_synonym type_ref = "nat \<times> string"

definition Distance :: "pyfloat \<Rightarrow> type_ref \<times> num" where
  "Distance meters = ((3, ''distance''), FloatNum meters)"

definition Time :: "int \<Rightarrow> type_ref \<times> num" where
  "Time seconds = ((2, ''time''), IntNum seconds)"

definition parse_distance :: "string \<Rightarrow> string \<Rightarrow> exn + type_ref \<times> num" where
  "parse_distance g1 unit =
     (case py_float g1 of
        Inl e \<Rightarrow> Inl e
      | Inr v \<Rightarrow>
          Inr (Distance
                (if unit = ''m'' then v
                 else if unit = ''km'' then fmul v 1000
                 else if unit \<in> set [''mi'', ''mile'', ''miles''] then fmul v 1609.34
                 else v)))"

text \<open>
  The time branch.  The product of the minutes with 60 is exact here; the code takes it
  in binary64 before \<^verbatim>\<open>int\<close> truncates it (see the conventions at the top).
\<close>

definition parse_time :: "string \<Rightarrow> string \<Rightarrow> exn + type_ref \<times> num" where
  "parse_time g1 unit =
     (case py_float g1 of
        Inl e \<Rightarrow> Inl e
      | Inr v \<Rightarrow>
          (case int_of_float
                  (if unit \<in> set [''sec'', ''secs'', ''second'', ''seconds'', ''s'']
                   then v else fmul v 60) of
             Inl e \<Rightarrow> Inl e
           | Inr total_seconds \<Rightarrow> Inr (Time total_seconds)))"

definition parse_clock :: "string \<Rightarrow> exn + type_ref \<times> num" where
  "parse_clock duration =
     (let (p0, ps) = split (CHR '':'') duration
      in case py_int p0 of
           Inl e \<Rightarrow> Inl e
         | Inr minutes \<Rightarrow>
             (if length ps = 1
              then (case py_int (hd ps) of
                      Inl e \<Rightarrow> Inl e
                    | Inr seconds \<Rightarrow> Inr (Time (minutes * 60 + seconds)))
              else Inr (Time (minutes * 60 + 0))))"

text \<open>The last branch: \<^verbatim>\<open>int(float(duration)) * 60\<close> under \<^verbatim>\<open>except ValueError\<close>.\<close>

definition parse_bare :: "string \<Rightarrow> exn + type_ref \<times> num" where
  "parse_bare duration =
     (case (case py_float duration of Inl e \<Rightarrow> Inl e | Inr v \<Rightarrow> int_of_float v) of
        Inr n \<Rightarrow> Inr (Time (n * 60))
      | Inl e \<Rightarrow> if e = ValueError then Inr (Time 600) else Inl e)"

definition parse_duration :: "string \<Rightarrow> exn + type_ref \<times> num" where
  "parse_duration text =
     (let duration = lower (strip text)
      in case re_number_unit dist_units duration of
           Some (g1, unit) \<Rightarrow> parse_distance g1 unit
         | None \<Rightarrow>
             (case re_number_unit time_units duration of
                Some (g1, unit) \<Rightarrow> parse_time g1 unit
              | None \<Rightarrow>
                  if CHR '':'' \<in> set duration then parse_clock duration
                  else parse_bare duration))"

section \<open>TargetParser: \<^verbatim>\<open>GarminClient._parse_target\<close>\<close>

type_synonym target_value = "num option \<times> num option"

definition NoTarget :: "type_ref \<times> target_value" where
  "NoTarget = ((1, ''no.target''), (None, None))"

definition PaceRange :: "rat \<Rightarrow> rat \<Rightarrow> type_ref \<times> target_value" where
  "PaceRange low high =
     ((6, ''pace.zone''), (Some (FloatNum (Fin low)), Some (FloatNum (Fin high))))"

definition HeartRateZone :: "int \<Rightarrow> type_ref \<times> target_value" where
  "HeartRateZone zone = ((4, ''heart.rate.zone''), (Some (IntNum zone), Some (IntNum zone)))"

definition parse_pace :: "string \<Rightarrow> string \<Rightarrow> string option \<Rightarrow> exn + type_ref \<times> target_value"
  where
  "parse_pace g1 g2 unit =
     (case py_int g1 of
        Inl e \<Rightarrow> Inl e
      | Inr minutes \<Rightarrow>
          (case py_int g2 of
             Inl e \<Rightarrow> Inl e
           | Inr seconds \<Rightarrow>
               (let total_seconds = minutes * 60 + seconds
                in if total_seconds = 0 then Inl ZeroDivisionError
                   else
                     (let meters_per_second =
                            (if unit = Some ''km'' \<or> (unit = None \<and> minutes < 10)
                             then 1000 / of_int total_seconds
                             else 1609.34 / of_int total_seconds)
                      in Inr (PaceRange (meters_per_second * 1.05)
                                (meters_per_second * 0.95))))))"

text \<open>\<^verbatim>\<open>re.search(r'(\d)', target)\<close> finds the first digit of the text.\<close>

definition parse_zone :: "string \<Rightarrow> type_ref \<times> target_value" where
  "parse_zone target =
     (if contains (lower target) ''zone''
      then (case find is_digit target of
              Some d \<Rightarrow> HeartRateZone (digit_val d)
            | None \<Rightarrow> NoTarget)
      else NoTarget)"

definition parse_target :: "string \<Rightarrow> exn + type_ref \<times> target_value" where
  "parse_target target =
     (if target = [] \<or> lower target \<in> set [''open'', ''jog'', ''easy'']
      then Inr NoTarget
      else (case re_pace (strip target) of
              Some (g1, g2, unit) \<Rightarrow> parse_pace g1 g2 unit
            | None \<Rightarrow> Inr (parse_zone target)))"

section \<open>StepEncoder: \<^verbatim>\<open>GarminClient._build_workout_steps\<close>\<close>

text \<open>
  A raw step is a dictionary read with \<^verbatim>\<open>step.get(key, default)\<close>; a field is
  \<open>None\<close> when the key is absent.  Keys the code never reads are left out.
\<close>

record raw_step =
  duration :: "string option"
  target :: "string option"
  intensity :: "string option"

text \<open>
  The encoded step.  The entries of the dictionary that are the same for every step
  (\<^verbatim>\<open>type\<close>, \<^verbatim>\<open>stepId\<close>, \<^verbatim>\<open>childStepId\<close>, \<^verbatim>\<open>description\<close>) are left out.
\<close>

record garmin_step =
  stepOrder :: nat
  stepType :: type_ref
  endCondition :: type_ref
  endConditionValue :: num
  targetType :: type_ref
  targetValueOne :: "num option"
  targetValueTwo :: "num option"

definition get_or :: "'a option \<Rightarrow> 'a \<Rightarrow> 'a" where
  "get_or v d = (case v of None \<Rightarrow> d | Some x \<Rightarrow> x)"

definition get_step_type :: "string \<Rightarrow> type_ref" where
  "get_step_type i =
     get_or
       (map_of
          [(''warmup'', (1, ''warmup'')),
           (''cooldown'', (2, ''cooldown'')),
           (''rest'', (4, ''recovery'')),
           (''active'', (3, ''interval''))] i)
       (3, ''interval'')"

definition build_step :: "nat \<Rightarrow> raw_step \<Rightarrow> exn + garmin_step" where
  "build_step i step =
     (let step_type = get_step_type (get_or (intensity step) ''active'')
      in case parse_duration (get_or (duration step) ''10:00'') of
           Inl e \<Rightarrow> Inl e
         | Inr (duration_type, duration_value) \<Rightarrow>
             (case parse_target (get_or (target step) ''Open'') of
                Inl e \<Rightarrow> Inl e
              | Inr (target_type, (low, high)) \<Rightarrow>
                  Inr \<lparr>stepOrder = i + 1,
                       stepType = step_type,
                       endCondition = duration_type,
                       endConditionValue = duration_value,
                       targetType = target_type,
                       targetValueOne = low,
                       targetValueTwo = high\<rparr>))"

text \<open>The loop over \<^verbatim>\<open>enumerate(steps)\<close>, from index \<open>i\<close>, appending to \<open>garmin_steps\<close>.\<close>

fun build_loop :: "nat \<Rightarrow> raw_step list \<Rightarrow> garmin_step list \<Rightarrow> exn + garmin_step list" where
  "build_loop i [] garmin_steps = Inr garmin_steps"
| "build_loop i (step # steps) garmin_steps =
     (case build_step i step of
        Inl e \<Rightarrow> Inl e
      | Inr garmin_step \<Rightarrow> build_loop (i + 1) steps (garmin_steps @ [garmin_step]))"

definition build_workout_steps :: "raw_step list \<Rightarrow> exn + garmin_step list" where
  "build_workout_steps steps = build_loop 0 steps []"

section \<open>PlanUploader: \<^verbatim>\<open>GarminClient.push_all_workouts\<close>\<close>

text \<open>
  A workout of the plan, read with \<^verbatim>\<open>workout.get\<close>; an absent list of steps is
  the empty list.
\<close>

record workout_day =
  name :: "string option"
  description :: "string option"
  date :: "string option"
  steps :: "raw_step list"

text \<open>
  The request of \<^verbatim>\<open>upload_workout\<close>, without its constant entries (the sport type and
  the single segment of order 1 that holds the steps).
\<close>

record workout =
  workoutName :: string
  workoutDescription :: string
  workoutSteps :: "garmin_step list"

text \<open>
  The run is observed through a trace: one event for every call of
  \<^verbatim>\<open>create_workout\<close> (an attempt), for every upload request sent and for every schedule
  request sent (the workout identifier of the path and the ISO date of the body).
\<close>

datatype event =
    CreateCall workout_day
  | UploadReq workout
  | ScheduleReq int string

text \<open>
  The platform is an external collaborator.  Its answer to a request may depend on
  everything that happened before, so it is a function of the trace so far; every
  request extends the trace, so any sequence of answers is such a function.  An upload
  answers with \<^verbatim>\<open>result.get("workoutId")\<close> or raises.
\<close>

record remote =
  upload_workout :: "event list \<Rightarrow> workout \<Rightarrow> exn + int option"
  connectapi :: "event list \<Rightarrow> int \<Rightarrow> string \<Rightarrow> exn + unit"

text \<open>
  The environment of a run: \<^verbatim>\<open>self.client\<close> (\<open>None\<close> before authentication) and the
  two library functions the uploader calls, taken as parameters:
  \<^verbatim>\<open>datetime.strptime(date, "%Y-%m-%d").date().isoformat()\<close> and \<^verbatim>\<open>str(e)\<close>.
  The console is not modelled.
\<close>

record env =
  client :: "remote option"
  strptime_iso :: "string \<Rightarrow> exn + string"
  str :: "exn \<Rightarrow> string"

definition create_workout ::
  "env \<Rightarrow> workout_day \<Rightarrow> event list \<Rightarrow> (exn + int option) \<times> event list" where
  "create_workout e workout_data tr0 =
     (let tr = tr0 @ [CreateCall workout_data]
      in case client e of
           None \<Rightarrow> (Inl (RuntimeError ''Not authenticated''), tr)
         | Some c \<Rightarrow>
             (case build_workout_steps (steps workout_data) of
                Inl x \<Rightarrow> (Inl x, tr)
              | Inr gs \<Rightarrow>
                  (let w = \<lparr>workoutName = get_or (name workout_data) ''Training Run'',
                            workoutDescription = get_or (description workout_data) [],
                            workoutSteps = gs\<rparr>
                   in (upload_workout c tr w, tr @ [UploadReq w]))))"

definition schedule_workout ::
  "env \<Rightarrow> int \<Rightarrow> string \<Rightarrow> event list \<Rightarrow> (exn + unit) \<times> event list" where
  "schedule_workout e workout_id d tr =
     (case client e of
        None \<Rightarrow> (Inl (RuntimeError ''Not authenticated''), tr)
      | Some c \<Rightarrow>
          (case strptime_iso e d of
             Inl x \<Rightarrow> (Inl x, tr)
           | Inr isodate \<Rightarrow>
               (connectapi c tr workout_id isodate, tr @ [ScheduleReq workout_id isodate])))"

text \<open>
  The two operands of \<^verbatim>\<open>if workout_id and workout.get("date")\<close>: an identifier is
  false when it is \<open>None\<close> or 0, a date when it is absent or empty.
\<close>

definition truthy_id :: "int option \<Rightarrow> bool" where
  "truthy_id v = (case v of None \<Rightarrow> False | Some i \<Rightarrow> i \<noteq> 0)"

definition truthy_text :: "string option \<Rightarrow> bool" where
  "truthy_text v = (case v of None \<Rightarrow> False | Some s \<Rightarrow> s \<noteq> [])"

text \<open>The body of the \<^verbatim>\<open>try\<close>: one attempt to create and schedule a workout.\<close>

definition attempt :: "env \<Rightarrow> workout_day \<Rightarrow> event list \<Rightarrow> (exn + unit) \<times> event list" where
  "attempt e w tr0 =
     (case create_workout e w tr0 of
        (Inl x, tr) \<Rightarrow> (Inl x, tr)
      | (Inr workout_id, tr) \<Rightarrow>
          (if truthy_id workout_id \<and> truthy_text (date w)
           then schedule_workout e (get_or workout_id 0) (get_or (date w) []) tr
           else (Inr (), tr)))"

text \<open>
  The state of the loops: the two accumulators of \<^verbatim>\<open>push_all_workouts\<close> and the
  trace.
\<close>

record push_state =
  created_count :: int
  failed :: "(string \<times> string) list"
  trace :: "event list"

text \<open>
  \<^verbatim>\<open>for attempt in range(3)\<close> over the attempt numbers still to run: a success
  counts the workout and leaves the loop, a failure is recorded when the attempt
  number is 2.
\<close>

fun retry :: "env \<Rightarrow> workout_day \<Rightarrow> string \<Rightarrow> nat list \<Rightarrow> push_state \<Rightarrow> push_state" where
  "retry e w nm [] st = st"
| "retry e w nm (n # ns) st =
     (case attempt e w (trace st) of
        (Inr u, tr) \<Rightarrow> st\<lparr>created_count := created_count st + 1, trace := tr\<rparr>
      | (Inl x, tr) \<Rightarrow>
          retry e w nm ns
            (if n = 2 then st\<lparr>failed := failed st @ [(nm, str e x)], trace := tr\<rparr>
             else st\<lparr>trace := tr\<rparr>))"

fun push_loop :: "env \<Rightarrow> workout_day list \<Rightarrow> push_state \<Rightarrow> push_state" where
  "push_loop e [] st = st"
| "push_loop e (w # plan) st =
     push_loop e plan (retry e w (get_or (name w) ''Unknown'') [0, 1, 2] st)"

text \<open>
  \<^verbatim>\<open>push_all_workouts\<close> returns \<^verbatim>\<open>created_count\<close>; the list \<^verbatim>\<open>failed\<close> is a local
  variable that the code only prints.  The result is the returned value and the trace.
\<close>

definition push_all_workouts ::
  "env \<Rightarrow> workout_day list \<Rightarrow> event list \<Rightarrow> (exn + int) \<times> event list" where
  "push_all_workouts e training_plan tr =
     (case client e of
        None \<Rightarrow> (Inl (RuntimeError ''Not authenticated''), tr)
      | Some c \<Rightarrow>
          (let st = push_loop e training_plan \<lparr>created_count = 0, failed = [], trace = tr\<rparr>
           in (Inr (created_count st), trace st)))"

section \<open>FitnessSummarizer: \<^verbatim>\<open>analyze_fitness\<close>\<close>

record activity =
  start_date :: string
  distance_km :: rat
  duration_min :: rat
  avg_hr :: "rat option"
  avg_pace_min_km :: "rat option"
  calories :: "rat option"

datatype pyval = PyBool bool | PyInt int | PyFloat rat | PyStr string | PyList "activity list"

text \<open>\<^verbatim>\<open>[v for v in vs if v]\<close>: \<open>None\<close> and zero are false.\<close>

fun truthy_values :: "rat option list \<Rightarrow> rat list" where
  "truthy_values [] = []"
| "truthy_values (None # vs) = truthy_values vs"
| "truthy_values (Some x # vs) = (if x = 0 then truthy_values vs else x # truthy_values vs)"

text \<open>\<^verbatim>\<open>s / len(xs)\<close>: division by zero raises.\<close>

definition divide_len :: "rat \<Rightarrow> 'a list \<Rightarrow> exn + rat" where
  "divide_len s xs =
     (if length xs = 0 then Inl ZeroDivisionError else Inr (s / of_nat (length xs)))"

text \<open>\<^verbatim>\<open>if xs: metrics[key] = sum(xs) / len(xs)\<close>.\<close>

definition put_mean ::
  "string \<Rightarrow> rat list \<Rightarrow> (string \<rightharpoonup> pyval) \<Rightarrow> exn + (string \<rightharpoonup> pyval)" where
  "put_mean key xs metrics =
     (if xs = [] then Inr metrics
      else (case divide_len (sum_list xs) xs of
              Inl x \<Rightarrow> Inl x
            | Inr mean \<Rightarrow> Inr (metrics(key \<mapsto> PyFloat mean))))"

definition analyze_fitness :: "activity list \<Rightarrow> exn + (string \<rightharpoonup> pyval)" where
  "analyze_fitness activities =
     (if activities = []
      then Inr [''has_data'' \<mapsto> PyBool False,
                ''message'' \<mapsto> PyStr ''No running activities found'']
      else
        (case divide_len (sum_list (map distance_km activities)) activities of
           Inl x \<Rightarrow> Inl x
         | Inr avg \<Rightarrow>
             (case put_mean ''avg_pace_min_km''
                     (truthy_values (map avg_pace_min_km activities))
                     [''has_data'' \<mapsto> PyBool True,
                      ''total_runs'' \<mapsto> PyInt (int (length activities)),
                      ''avg_distance_km'' \<mapsto> PyFloat avg,
                      ''total_distance_km'' \<mapsto> PyFloat (sum_list (map distance_km activities))] of
                Inl x \<Rightarrow> Inl x
              | Inr m1 \<Rightarrow>
                  (case put_mean ''avg_hr'' (truthy_values (map avg_hr activities)) m1 of
                     Inl x \<Rightarrow> Inl x
                   | Inr m2 \<Rightarrow> Inr (m2(''recent_runs'' \<mapsto> PyList (take 10 activities)))))))"

section \<open>The specification's readings, and the concrete runs of the examples\<close>

text \<open>
  The target specification reads the zone as the single digit that follows the word
  ``zone'' (white space may lie between, as in ``Zone 3'').  This function follows those
  words, not the code: the digit after the first occurrence of the word.
\<close>

fun spec_zone_digit :: "string \<Rightarrow> int option" where
  "spec_zone_digit [] = None"
| "spec_zone_digit (c # cs) =
     (if startswith (lower (c # cs)) ''zone''
      then (case dropWhile is_space (drop 4 (c # cs)) of
              [] \<Rightarrow> None
            | d # r \<Rightarrow> if is_digit d then Some (digit_val d) else None)
      else spec_zone_digit cs)"

text \<open>
  The summarizer's specification takes a mean over the records whose field is defined,
  a defined zero included.  These two functions follow those words.
\<close>

fun spec_defined_values :: "rat option list \<Rightarrow> rat list" where
  "spec_defined_values [] = []"
| "spec_defined_values (None # vs) = spec_defined_values vs"
| "spec_defined_values (Some x # vs) = x # spec_defined_values vs"

definition spec_mean :: "rat list \<Rightarrow> rat option" where
  "spec_mean xs = (if xs = [] then None else Some (sum_list xs / of_nat (length xs)))"

text \<open>The uploader's specification: what three failed attempts at every workout record.\<close>

definition spec_third_error ::
  "env \<Rightarrow> workout_day \<Rightarrow> event list \<Rightarrow> (string \<times> string) \<times> event list" where
  "spec_third_error e w tr =
     (let tr1 = snd (attempt e w tr);
          tr2 = snd (attempt e w tr1);
          r3 = attempt e w tr2
      in ((get_or (name w) ''Unknown'', (case fst r3 of Inl x \<Rightarrow> str e x | Inr u \<Rightarrow> [])),
          snd r3))"

fun spec_third_errors :: "env \<Rightarrow> workout_day list \<Rightarrow> event list \<Rightarrow> (string \<times> string) list" where
  "spec_third_errors e [] tr = []"
| "spec_third_errors e (w # plan) tr =
     fst (spec_third_error e w tr) # spec_third_errors e plan (snd (spec_third_error e w tr))"

definition names :: "workout_day list \<Rightarrow> string list" where
  "names plan = map (\<lambda>w. get_or (name w) ''Unknown'') plan"

text \<open>
  The uploader's specification, workout by workout.  One attempt: encode the steps and
  submit the create request; when an identifier comes back and the workout has a date,
  submit the schedule request for that identifier and date; any failure on the way fails
  the attempt.  One workout: up to three attempts, created at the first that succeeds,
  failed with the message of the third error when all three fail.  The plan: every
  workout in order, whatever became of the ones before.
\<close>

datatype outcome = Created | Failed string string

definition spec_attempt ::
  "remote \<Rightarrow> env \<Rightarrow> workout_day \<Rightarrow> event list \<Rightarrow> (exn + unit) \<times> event list" where
  "spec_attempt c e w tr0 =
     (let tr = tr0 @ [CreateCall w]
      in case build_workout_steps (steps w) of
           Inl x \<Rightarrow> (Inl x, tr)
         | Inr gs \<Rightarrow>
             (let req = \<lparr>workoutName = get_or (name w) ''Training Run'',
                          workoutDescription = get_or (description w) [],
                          workoutSteps = gs\<rparr>;
                  tr1 = tr @ [UploadReq req]
              in case upload_workout c tr req of
                   Inl x \<Rightarrow> (Inl x, tr1)
                 | Inr None \<Rightarrow> (Inr (), tr1)
                 | Inr (Some i) \<Rightarrow>
                     (case date w of
                        None \<Rightarrow> (Inr (), tr1)
                      | Some d \<Rightarrow>
                          if i = 0 \<or> d = [] then (Inr (), tr1)
                          else (case strptime_iso e d of
                                  Inl x \<Rightarrow> (Inl x, tr1)
                                | Inr isodate \<Rightarrow>
                                    (connectapi c tr1 i isodate,
                                     tr1 @ [ScheduleReq i isodate])))))"

definition spec_workout ::
  "remote \<Rightarrow> env \<Rightarrow> workout_day \<Rightarrow> event list \<Rightarrow> outcome \<times> event list" where
  "spec_workout c e w tr =
     (case spec_attempt c e w tr of
        (Inr u, t1) \<Rightarrow> (Created, t1)
      | (Inl x1, t1) \<Rightarrow>
          (case spec_attempt c e w t1 of
             (Inr u, t2) \<Rightarrow> (Created, t2)
           | (Inl x2, t2) \<Rightarrow>
               (case spec_attempt c e w t2 of
                  (Inr u, t3) \<Rightarrow> (Created, t3)
                | (Inl x3, t3) \<Rightarrow> (Failed (get_or (name w) ''Unknown'') (str e x3), t3))))"

fun spec_plan ::
  "remote \<Rightarrow> env \<Rightarrow> workout_day list \<Rightarrow> event list \<Rightarrow> outcome list \<times> event list" where
  "spec_plan c e [] tr = ([], tr)"
| "spec_plan c e (w # plan) tr =
     (fst (spec_workout c e w tr)
        # fst (spec_plan c e plan (snd (spec_workout c e w tr))),
      snd (spec_plan c e plan (snd (spec_workout c e w tr))))"

fun created :: "outcome list \<Rightarrow> int" where
  "created [] = 0"
| "created (Created # os) = 1 + created os"
| "created (Failed n m # os) = created os"

fun failures :: "outcome list \<Rightarrow> (string \<times> string) list" where
  "failures [] = []"
| "failures (Created # os) = failures os"
| "failures (Failed n m # os) = (n, m) # failures os"

text \<open>The workouts of the calls of \<^verbatim>\<open>create_workout\<close> in a trace, in order.\<close>

fun calls :: "event list \<Rightarrow> workout_day list" where
  "calls [] = []"
| "calls (CreateCall w # evs) = w # calls evs"
| "calls (UploadReq u # evs) = calls evs"
| "calls (ScheduleReq i d # evs) = calls evs"

fun schedules :: "event list \<Rightarrow> (int \<times> string) list" where
  "schedules [] = []"
| "schedules (CreateCall w # evs) = schedules evs"
| "schedules (UploadReq u # evs) = schedules evs"
| "schedules (ScheduleReq i d # evs) = (i, d) # schedules evs"

definition start :: "event list \<Rightarrow> push_state" where
  "start tr = \<lparr>created_count = 0, failed = [], trace = tr\<rparr>"

text \<open>Test doubles: platforms, an environment around a platform, workouts, activities.\<close>

fun exn_text :: "exn \<Rightarrow> string" where
  "exn_text ValueError = ''ValueError''"
| "exn_text OverflowError = ''OverflowError''"
| "exn_text ZeroDivisionError = ''ZeroDivisionError''"
| "exn_text (RuntimeError m) = m"
| "exn_text (LibraryError m) = m"

definition env_of :: "remote \<Rightarrow> env" where
  "env_of r = \<lparr>client = Some r, strptime_iso = Inr, str = exn_text\<rparr>"

definition refuses :: "string \<Rightarrow> remote" where
  "refuses nm =
     \<lparr>upload_workout =
        (\<lambda>h w. if workoutName w = nm then Inl (LibraryError ''refused'') else Inr (Some 7)),
      connectapi = (\<lambda>h i d. Inr ())\<rparr>"

definition always_fails :: "string \<Rightarrow> remote" where
  "always_fails msg =
     \<lparr>upload_workout = (\<lambda>h w. Inl (LibraryError msg)),
      connectapi = (\<lambda>h i d. Inr ())\<rparr>"

definition fails_counting :: remote where
  "fails_counting =
     \<lparr>upload_workout = (\<lambda>h w. Inl (LibraryError (replicate (length h) (CHR ''x'')))),
      connectapi = (\<lambda>h i d. Inr ())\<rparr>"

definition answers :: "int option \<Rightarrow> remote" where
  "answers i =
     \<lparr>upload_workout = (\<lambda>h w. Inr i),
      connectapi = (\<lambda>h i d. Inr ())\<rparr>"

definition day :: "string \<Rightarrow> string option \<Rightarrow> workout_day" where
  "day nm d = \<lparr>name = Some nm, description = None, date = d, steps = []\<rparr>"

definition run :: "rat \<Rightarrow> rat option \<Rightarrow> rat option \<Rightarrow> activity" where
  "run km pace hr =
     \<lparr>start_date = ''2026-01-01 07:00:00'', distance_km = km, duration_min = 30,
      avg_hr = hr, avg_pace_min_km = pace, calories = None\<rparr>"

section \<open>DurationParser and TargetParser at concrete inputs\<close>

text \<open>
  C1.  The claim: \<open>parse_duration\<close> returns a duration condition for every text and never
  raises.  The code converts the two parts of a text with a colon by \<^verbatim>\<open>int\<close> outside
  any \<^verbatim>\<open>try\<close>, and the number of a distance by \<^verbatim>\<open>float\<close> outside any \<^verbatim>\<open>try\<close>;
  only the last branch catches \<^verbatim>\<open>ValueError\<close>.  At the texts \<^verbatim>\<open>a:b\<close> and
  \<^verbatim>\<open>1.2.3km\<close> the function raises \<^verbatim>\<open>ValueError\<close> where the claim promises the default.
\<close>

theorem parse_duration_raises:
  "parse_duration ''a:b'' = Inl ValueError \<and> parse_duration ''1.2.3km'' = Inl ValueError"
  by code_simp

text \<open>
  C4, as stated: a bare number gives the number times 60, then truncated, so that
  \<^verbatim>\<open>2.5\<close> gives 150 seconds.  The code truncates first: \<^verbatim>\<open>int(float(duration)) * 60\<close>.
\<close>

theorem parse_duration_bare_counterexample:
  "parse_duration ''2.5'' = Inr (Time 120)
   \<and> parse_duration ''2.5'' \<noteq> Inr (Time (trunc (2.5 * 60)))"
  by code_simp

text \<open>
  C5, as stated: the zone returned is the digit that follows the word ``zone''.  The
  code takes the first digit anywhere in the text once the text contains ``zone''.
\<close>

theorem parse_target_zone_counterexample:
  "parse_target ''5k zone 3'' = Inr (HeartRateZone 5)
   \<and> spec_zone_digit ''5k zone 3'' = Some 3
   \<and> parse_target ''3 zone'' = Inr (HeartRateZone 3)
   \<and> spec_zone_digit ''3 zone'' = None"
  by code_simp

text \<open>
  C6, as stated: the bounds of \<^verbatim>\<open>7:30/mi\<close> come from a base of 300 seconds per mile.
  Seven minutes and thirty seconds are 450 seconds.
\<close>

theorem parse_target_pace_counterexample:
  "parse_target ''7:30/mi''
   \<noteq> Inr (PaceRange (1609.34 / 300 * 1.05) (1609.34 / 300 * 0.95))"
  by code_simp

text \<open>
  C6, amended: \<^verbatim>\<open>7:30/mi\<close> gives a pace range whose low bound is above its high bound
  as speeds, both from the base speed of a mile (1609.34 m) in 450 seconds: the low
  bound is the base times 1.05 and the high bound the base times 0.95.
\<close>

theorem parse_target_pace_730:
  "\<exists>low high. parse_target ''7:30/mi'' = Inr (PaceRange low high) \<and> high < low
     \<and> low = 1609.34 / 450 * 1.05 \<and> high = 1609.34 / 450 * 0.95"
proof -
  have "parse_target ''7:30/mi''
        = Inr (PaceRange (1609.34 / 450 * 1.05) (1609.34 / 450 * 0.95))"
    by code_simp
  moreover have "(1609.34 / 450 * 0.95 :: rat) < 1609.34 / 450 * 1.05"
    by simp
  ultimately show ?thesis by blast
qed

section \<open>StepEncoder\<close>

text \<open>
  C9.  The claim: for every sequence of raw steps the encoder gives one encoded step
  per input step, numbered from 1.  A step whose duration makes \<open>parse_duration\<close> raise
  (the defect of C1), or whose target is a pace of zero seconds, makes the encoder raise:
  it gives no steps at all.
\<close>

theorem build_workout_steps_raises:
  "build_workout_steps [\<lparr>duration = Some ''a:b'', target = None, intensity = None\<rparr>]
     = Inl ValueError
   \<and> build_workout_steps [\<lparr>duration = None, target = Some ''0:00'', intensity = None\<rparr>]
     = Inl ZeroDivisionError"
  by code_simp

text \<open>Whenever the encoder returns, the numbering is the one the claim describes.\<close>

lemma build_loop_order:
  "build_loop i ss acc = Inr gs \<Longrightarrow>
   map stepOrder gs = map stepOrder acc @ [Suc i ..< Suc i + length ss]"
proof (induction ss arbitrary: i acc)
  case Nil
  then show ?case by simp
next
  case (Cons s ss)
  from Cons.prems obtain g where g: "build_step i s = Inr g"
    and rest: "build_loop (Suc i) ss (acc @ [g]) = Inr gs"
    by (auto split: sum.splits)
  have "stepOrder g = Suc i"
    using g by (auto simp: build_step_def Let_def split: sum.splits prod.splits)
  moreover have "[Suc i ..< Suc i + length (s # ss)] = Suc i # [Suc (Suc i) ..< Suc (Suc i) + length ss]"
    using upt_conv_Cons [of "Suc i" "Suc i + length (s # ss)"] by simp
  ultimately show ?case
    using Cons.IH [OF rest] by simp
qed
lemma build_workout_steps_order:
  "build_workout_steps ss = Inr gs \<Longrightarrow> map stepOrder gs = [1 ..< Suc (length ss)]"
  using build_loop_order [of 0 ss "[]" gs] by (simp add: build_workout_steps_def)

section \<open>FitnessSummarizer\<close>

lemma truthy_values_filter:
  "truthy_values vs = filter (\<lambda>x. x \<noteq> 0) (spec_defined_values vs)"
  by (induction vs rule: truthy_values.induct) simp_all

text \<open>
  C7.  On the empty sequence \<open>analyze_fitness\<close> returns the dictionary with
  \<^verbatim>\<open>has_data\<close> false and a message, and no other key: no aggregate is computed, and no
  division is made (the result is not \<^verbatim>\<open>ZeroDivisionError\<close>).  On every non-empty
  sequence the total distance is the sum of the distances and the average distance is
  that sum divided by the number of records.
\<close>

theorem analyze_fitness_totals:
  "(\<exists>m. analyze_fitness [] = Inr m \<and> m ''has_data'' = Some (PyBool False)
        \<and> dom m = {''has_data'', ''message''}
        \<and> m ''message'' = Some (PyStr ''No running activities found''))
   \<and> (activities \<noteq> [] \<longrightarrow>
        (\<exists>m. analyze_fitness activities = Inr m \<and> m ''has_data'' = Some (PyBool True)
           \<and> m ''total_distance_km'' = Some (PyFloat (sum_list (map distance_km activities)))
           \<and> m ''avg_distance_km''
               = Some (PyFloat (sum_list (map distance_km activities)
                                 / of_nat (length activities)))))"
proof (intro conjI impI)
  show "\<exists>m. analyze_fitness [] = Inr m \<and> m ''has_data'' = Some (PyBool False)
        \<and> dom m = {''has_data'', ''message''}
        \<and> m ''message'' = Some (PyStr ''No running activities found'')"
    by (auto simp: analyze_fitness_def)
next
  assume ne: "activities \<noteq> []"
  show "\<exists>m. analyze_fitness activities = Inr m \<and> m ''has_data'' = Some (PyBool True)
           \<and> m ''total_distance_km'' = Some (PyFloat (sum_list (map distance_km activities)))
           \<and> m ''avg_distance_km''
               = Some (PyFloat (sum_list (map distance_km activities)
                                 / of_nat (length activities)))"
    using ne by (simp add: analyze_fitness_def put_mean_def divide_len_def)
qed

text \<open>Two records of 5 km and 10 km: 15 km in all, 7.5 km on average.\<close>

theorem analyze_fitness_totals_witness:
  "\<exists>m. analyze_fitness [run 5 None None, run 10 (Some 6) (Some 150)] = Inr m
       \<and> m ''total_distance_km'' = Some (PyFloat 15)
       \<and> m ''avg_distance_km'' = Some (PyFloat (15 / 2))"
  using analyze_fitness_totals [of "[run 5 None None, run 10 (Some 6) (Some 150)]"]
  by (auto simp: run_def)

text \<open>
  C8, amended: on every non-empty sequence the pace mean is the arithmetic mean over
  exactly the records whose pace is defined and not zero, and the heart-rate mean over
  exactly the records whose heart rate is defined and not zero; a column with no such
  record leaves the key of its mean out of the result.
\<close>

theorem analyze_fitness_means:
  "activities \<noteq> [] \<Longrightarrow>
   \<exists>m. analyze_fitness activities = Inr m
     \<and> m ''avg_pace_min_km''
         = map_option PyFloat
             (spec_mean (filter (\<lambda>x. x \<noteq> 0)
                (spec_defined_values (map avg_pace_min_km activities))))
     \<and> m ''avg_hr''
         = map_option PyFloat
             (spec_mean (filter (\<lambda>x. x \<noteq> 0)
                (spec_defined_values (map avg_hr activities))))"
  by (simp add: analyze_fitness_def put_mean_def divide_len_def spec_mean_def truthy_values_filter)

text \<open>A pace of zero is left out of the mean; no heart rate, no heart-rate mean.\<close>

theorem analyze_fitness_means_witness:
  "\<exists>m. analyze_fitness [run 5 (Some 0) None, run 10 (Some 6) None] = Inr m
     \<and> m ''avg_pace_min_km'' = Some (PyFloat 6) \<and> m ''avg_hr'' = None"
  using analyze_fitness_means [of "[run 5 (Some 0) None, run 10 (Some 6) None]"]
  by (simp add: run_def spec_mean_def)


text \<open>
  C8, as stated: a record with a defined value, zero included, takes part in the mean.
  The code filters by truth value, \<^verbatim>\<open>if a["avg_pace_min_km"]\<close>, and zero is false:
  with paces 0 and 6 the code's mean is 6, the mean over the defined values is 3.
\<close>

theorem analyze_fitness_means_counterexample:
  "\<exists>m. analyze_fitness [run 5 (Some 0) (Some 0), run 10 (Some 6) (Some 150)] = Inr m
     \<and> m ''avg_pace_min_km'' = Some (PyFloat 6)
     \<and> map_option PyFloat
          (spec_mean (spec_defined_values
             (map avg_pace_min_km [run 5 (Some 0) (Some 0), run 10 (Some 6) (Some 150)])))
        = Some (PyFloat 3)
     \<and> m ''avg_hr'' = Some (PyFloat 150)
     \<and> map_option PyFloat
          (spec_mean (spec_defined_values
             (map avg_hr [run 5 (Some 0) (Some 0), run 10 (Some 6) (Some 150)])))
        = Some (PyFloat 75)"
  by (simp add: analyze_fitness_def put_mean_def divide_len_def spec_mean_def run_def)

section \<open>PlanUploader\<close>

lemma calls_append: "calls (xs @ ys) = calls xs @ calls ys"
  by (induction xs rule: calls.induct) simp_all

lemma schedules_append: "schedules (xs @ ys) = schedules xs @ schedules ys"
  by (induction xs rule: schedules.induct) simp_all

lemma create_workout_calls: "calls (snd (create_workout e w tr)) = calls tr @ [w]"
  by (simp add: create_workout_def Let_def calls_append split: option.splits sum.splits)

lemma create_workout_schedules: "schedules (snd (create_workout e w tr)) = schedules tr"
  by (simp add: create_workout_def Let_def schedules_append split: option.splits sum.splits)

lemma schedule_workout_calls: "calls (snd (schedule_workout e i d tr)) = calls tr"
  by (simp add: schedule_workout_def calls_append split: option.splits sum.splits)

lemma attempt_calls: "calls (snd (attempt e w tr)) = calls tr @ [w]"
proof -
  obtain r t where c: "create_workout e w tr = (r, t)" by force
  then have "calls t = calls tr @ [w]"
    using create_workout_calls [of e w tr] by simp
  then show ?thesis
    using c by (simp add: attempt_def schedule_workout_calls split: sum.splits)
qed

lemma retry_three:
  "\<exists>k tr'. 1 \<le> k \<and> k \<le> 3 \<and> calls tr' = calls (trace st) @ replicate k w \<and>
     (retry e w nm [0, 1, 2] st = st\<lparr>created_count := created_count st + 1, trace := tr'\<rparr>
      \<or> (\<exists>x. retry e w nm [0, 1, 2] st = st\<lparr>failed := failed st @ [(nm, str e x)], trace := tr'\<rparr>))"
proof -
  obtain a1 t1 where A1: "attempt e w (trace st) = (a1, t1)" by force
  obtain a2 t2 where A2: "attempt e w t1 = (a2, t2)" by force
  obtain a3 t3 where A3: "attempt e w t2 = (a3, t3)" by force
  have c1: "calls t1 = calls (trace st) @ replicate 1 w"
    using attempt_calls [of e w "trace st"] A1 by simp
  have c2: "calls t2 = calls (trace st) @ replicate 2 w"
    using attempt_calls [of e w t1] A2 c1 by (simp add: numeral_2_eq_2)
  have c3: "calls t3 = calls (trace st) @ replicate 3 w"
    using attempt_calls [of e w t2] A3 c2 by (simp add: numeral_3_eq_3 numeral_2_eq_2)
  show ?thesis
  proof (cases a1)
    case (Inr u)
    then have "retry e w nm [0, 1, 2] st = st\<lparr>created_count := created_count st + 1, trace := t1\<rparr>"
      using A1 by simp
    with c1 show ?thesis by (intro exI [of _ "1::nat"] exI [of _ t1]) simp
  next
    case i1: (Inl x1)
    show ?thesis
    proof (cases a2)
      case (Inr u)
      then have "retry e w nm [0, 1, 2] st = st\<lparr>created_count := created_count st + 1, trace := t2\<rparr>"
        using A1 A2 i1 by simp
      with c2 show ?thesis by (intro exI [of _ "2::nat"] exI [of _ t2]) simp
    next
      case i2: (Inl x2)
      show ?thesis
      proof (cases a3)
        case (Inr u)
        then have "retry e w nm [0, 1, 2] st = st\<lparr>created_count := created_count st + 1, trace := t3\<rparr>"
          using A1 A2 A3 i1 i2 by simp
        with c3 show ?thesis by (intro exI [of _ "3::nat"] exI [of _ t3]) simp
      next
        case i3: (Inl x3)
        then have "retry e w nm [0, 1, 2] st = st\<lparr>failed := failed st @ [(nm, str e x3)], trace := t3\<rparr>"
          using A1 A2 A3 i1 i2 by simp
        with c3 show ?thesis by (intro exI [of _ "3::nat"] exI [of _ t3]) auto
      qed
    qed
  qed
qed


lemma push_loop_inv:
  "\<exists>fs ks. failed (push_loop e plan st) = failed st @ fs
     \<and> subseq (map fst fs) (names plan)
     \<and> created_count (push_loop e plan st) + int (length fs) = created_count st + int (length plan)
     \<and> length ks = length plan \<and> list_all (\<lambda>k. 1 \<le> k \<and> k \<le> 3) ks
     \<and> calls (trace (push_loop e plan st)) = calls (trace st) @ concat (map2 replicate ks plan)"
proof (induction plan arbitrary: st)
  case Nil
  show ?case by (simp add: names_def)
next
  case (Cons w plan)
  define nm where "nm = get_or (name w) ''Unknown''"
  define s1 where "s1 = retry e w nm [0, 1, 2] st"
  have step: "push_loop e (w # plan) st = push_loop e plan s1"
    by (simp add: s1_def nm_def del: retry.simps)
  have nms: "names (w # plan) = nm # names plan"
    by (simp add: names_def nm_def)
  obtain k tr' where k: "1 \<le> k" "k \<le> 3"
    and tr': "calls tr' = calls (trace st) @ replicate k w"
    and r: "s1 = st\<lparr>created_count := created_count st + 1, trace := tr'\<rparr>
            \<or> (\<exists>x. s1 = st\<lparr>failed := failed st @ [(nm, str e x)], trace := tr'\<rparr>)"
    using retry_three [of st w e nm] unfolding s1_def by blast
  obtain fs ks where fs: "failed (push_loop e plan s1) = failed s1 @ fs"
    and sub: "subseq (map fst fs) (names plan)"
    and cnt: "created_count (push_loop e plan s1) + int (length fs)
              = created_count s1 + int (length plan)"
    and ks: "length ks = length plan" "list_all (\<lambda>k. 1 \<le> k \<and> k \<le> 3) ks"
    and cl: "calls (trace (push_loop e plan s1))
             = calls (trace s1) @ concat (map2 replicate ks plan)"
    using Cons.IH [of s1] by blast
  have tr1: "calls (trace s1) = calls (trace st) @ replicate k w"
    using r tr' by auto
  from r show ?case
  proof
    assume ok: "s1 = st\<lparr>created_count := created_count st + 1, trace := tr'\<rparr>"
    have f1: "failed s1 = failed st" and c1: "created_count s1 = created_count st + 1"
      using ok by simp_all
    have "subseq (map fst fs) (names (w # plan))"
      using sub nms by (simp add: list_emb_Cons)
    then show ?thesis
      unfolding step
      apply (intro exI [of _ fs] exI [of _ "k # ks"])
      using fs cnt ks cl tr1 k f1 c1 by simp
  next
    assume "\<exists>x. s1 = st\<lparr>failed := failed st @ [(nm, str e x)], trace := tr'\<rparr>"
    then obtain x where bad: "s1 = st\<lparr>failed := failed st @ [(nm, str e x)], trace := tr'\<rparr>"
      by blast
    have f1: "failed s1 = failed st @ [(nm, str e x)]" and c1: "created_count s1 = created_count st"
      using bad by simp_all
    have "subseq (map fst ((nm, str e x) # fs)) (names (w # plan))"
      using sub nms by simp
    then show ?thesis
      unfolding step
      apply (intro exI [of _ "(nm, str e x) # fs"] exI [of _ "k # ks"])
      using fs cnt ks cl tr1 k f1 c1 by simp
  qed
qed

lemma attempt_spec:
  assumes "client e = Some c"
  shows "attempt e w tr = spec_attempt c e w tr"
proof (cases "build_workout_steps (steps w)")
  case (Inl x)
  then show ?thesis
    using assms by (simp add: attempt_def create_workout_def spec_attempt_def Let_def)
next
  case (Inr gs)
  show ?thesis
  proof (cases "upload_workout c (tr @ [CreateCall w])
                  \<lparr>workoutName = get_or (name w) ''Training Run'',
                   workoutDescription = get_or (description w) [],
                   workoutSteps = gs\<rparr>")
    case (Inl x)
    then show ?thesis
      using assms Inr by (simp add: attempt_def create_workout_def spec_attempt_def Let_def)
  next
    case up: (Inr wid)
    show ?thesis
    proof (cases wid)
      case None
      with up show ?thesis
        using assms Inr
        by (simp add: attempt_def create_workout_def spec_attempt_def Let_def truthy_id_def)
    next
      case (Some i)
      show ?thesis
      proof (cases "date w")
        case None
        with up Some show ?thesis
          using assms Inr
          by (simp add: attempt_def create_workout_def spec_attempt_def Let_def
              truthy_text_def)
      next
        case d: (Some d)
        show ?thesis
        proof (cases "strptime_iso e d")
          case (Inl x)
          with up Some d show ?thesis
            using assms Inr
            by (simp add: attempt_def create_workout_def spec_attempt_def Let_def
                truthy_id_def truthy_text_def get_or_def schedule_workout_def)
        next
          case (Inr isodate)
          with up Some d show ?thesis
            using assms \<open>build_workout_steps (steps w) = Inr gs\<close>
            by (simp add: attempt_def create_workout_def spec_attempt_def Let_def
                truthy_id_def truthy_text_def get_or_def schedule_workout_def)
        qed
      qed
    qed
  qed
qed

lemma retry_spec:
  assumes "client e = Some c"
  shows "retry e w (get_or (name w) ''Unknown'') [0, 1, 2] st =
     (case spec_workout c e w (trace st) of
        (Created, t) \<Rightarrow> st\<lparr>created_count := created_count st + 1, trace := t\<rparr>
      | (Failed n m, t) \<Rightarrow> st\<lparr>failed := failed st @ [(n, m)], trace := t\<rparr>)"
  by (simp add: spec_workout_def attempt_spec [OF assms] split: prod.splits sum.splits)

lemma push_loop_spec:
  assumes "client e = Some c"
  shows "created_count (push_loop e plan st)
           = created_count st + created (fst (spec_plan c e plan (trace st)))
     \<and> failed (push_loop e plan st) = failed st @ failures (fst (spec_plan c e plan (trace st)))
     \<and> trace (push_loop e plan st) = snd (spec_plan c e plan (trace st))"
proof (induction plan arbitrary: st)
  case Nil
  show ?case by simp
next
  case (Cons w plan)
  define s1 where "s1 = retry e w (get_or (name w) ''Unknown'') [0, 1, 2] st"
  have step: "push_loop e (w # plan) st = push_loop e plan s1"
    by (simp add: s1_def del: retry.simps)
  obtain oc t where sw: "spec_workout c e w (trace st) = (oc, t)" by force
  have s1: "s1 = (case oc of
        Created \<Rightarrow> st\<lparr>created_count := created_count st + 1, trace := t\<rparr>
      | Failed n m \<Rightarrow> st\<lparr>failed := failed st @ [(n, m)], trace := t\<rparr>)"
    unfolding s1_def retry_spec [OF assms] sw by simp
  show ?case
  proof (cases oc)
    case Created
    then show ?thesis
      unfolding step using Cons.IH [of s1] by (simp add: s1 sw)
  next
    case (Failed n m)
    then show ?thesis
      unfolding step using Cons.IH [of s1] by (simp add: s1 sw)
  qed
qed

lemma length_spec_plan: "length (fst (spec_plan c e plan tr)) = length plan"
  by (induction plan arbitrary: tr) simp_all

text \<open>
  C2, amended: with an authenticated client, \<open>push_all_workouts\<close> returns the count of
  created workouts alone: the number of workouts of the plan for which one of at most
  three attempts succeeded.  The failures are gathered in the local list \<open>failed\<close>,
  which is not returned: in the order of the plan, the name of every workout whose three
  attempts all failed, each with the message of its third error.  Every workout of the
  plan is attempted, in order, at least once and at most three times, however many
  workouts failed, and the count and the number of failures add up to the number of
  workouts.
\<close>

theorem push_all_workouts_returns_count:
  assumes "client e = Some c"
  shows "push_all_workouts e plan tr
           = (Inr (created (fst (spec_plan c e plan tr))), snd (spec_plan c e plan tr))
     \<and> failed (push_loop e plan (start tr)) = failures (fst (spec_plan c e plan tr))
     \<and> length (fst (spec_plan c e plan tr)) = length plan
     \<and> fst (push_all_workouts e plan tr) = Inr (created_count (push_loop e plan (start tr)))
     \<and> snd (push_all_workouts e plan tr) = trace (push_loop e plan (start tr))
     \<and> created_count (push_loop e plan (start tr))
         + int (length (failed (push_loop e plan (start tr)))) = int (length plan)
     \<and> subseq (map fst (failed (push_loop e plan (start tr)))) (names plan)
     \<and> (\<exists>ks. length ks = length plan \<and> list_all (\<lambda>k. 1 \<le> k \<and> k \<le> 3) ks
            \<and> calls (trace (push_loop e plan (start tr)))
                = calls tr @ concat (map2 replicate ks plan))"
proof -
  have ret: "push_all_workouts e plan tr
             = (Inr (created_count (push_loop e plan (start tr))),
                trace (push_loop e plan (start tr)))"
    using assms by (simp add: push_all_workouts_def start_def Let_def)
  have sp: "created_count (push_loop e plan (start tr)) = created (fst (spec_plan c e plan tr))"
    "failed (push_loop e plan (start tr)) = failures (fst (spec_plan c e plan tr))"
    "trace (push_loop e plan (start tr)) = snd (spec_plan c e plan tr)"
    using push_loop_spec [OF assms, of plan "start tr"] by (simp_all add: start_def)
  obtain fs ks where "failed (push_loop e plan (start tr)) = failed (start tr) @ fs"
    and "subseq (map fst fs) (names plan)"
    and "created_count (push_loop e plan (start tr)) + int (length fs)
           = created_count (start tr) + int (length plan)"
    and "length ks = length plan" "list_all (\<lambda>k. 1 \<le> k \<and> k \<le> 3) ks"
    and "calls (trace (push_loop e plan (start tr)))
           = calls (trace (start tr)) @ concat (map2 replicate ks plan)"
    using push_loop_inv [of e plan "start tr"] by blast
  then have old: "created_count (push_loop e plan (start tr))
         + int (length (failed (push_loop e plan (start tr)))) = int (length plan)"
    "subseq (map fst (failed (push_loop e plan (start tr)))) (names plan)"
    "\<exists>ks. length ks = length plan \<and> list_all (\<lambda>k. 1 \<le> k \<and> k \<le> 3) ks
            \<and> calls (trace (push_loop e plan (start tr)))
                = calls tr @ concat (map2 replicate ks plan)"
    by (auto simp: start_def)
  have new: "push_all_workouts e plan tr
           = (Inr (created (fst (spec_plan c e plan tr))), snd (spec_plan c e plan tr))"
    using ret sp by simp
  show ?thesis
    using new sp(2) length_spec_plan [of c e plan tr] ret old
    by (intro conjI) simp_all
qed

text \<open>
  A platform that refuses workout A and accepts workout B, which has a date: three
  attempts at A, one at B with its schedule request, a count of 1 and A among the
  failures.
\<close>

theorem push_all_workouts_returns_count_witness:
  "push_all_workouts (env_of (refuses ''A''))
      [day ''A'' None, day ''B'' (Some ''2026-05-01'')] []
     = (Inr 1,
        [CreateCall (day ''A'' None),
         UploadReq \<lparr>workoutName = ''A'', workoutDescription = [], workoutSteps = []\<rparr>,
         CreateCall (day ''A'' None),
         UploadReq \<lparr>workoutName = ''A'', workoutDescription = [], workoutSteps = []\<rparr>,
         CreateCall (day ''A'' None),
         UploadReq \<lparr>workoutName = ''A'', workoutDescription = [], workoutSteps = []\<rparr>,
         CreateCall (day ''B'' (Some ''2026-05-01'')),
         UploadReq \<lparr>workoutName = ''B'', workoutDescription = [], workoutSteps = []\<rparr>,
         ScheduleReq 7 ''2026-05-01''])
   \<and> failed (push_loop (env_of (refuses ''A''))
        [day ''A'' None, day ''B'' (Some ''2026-05-01'')] (start []))
     = [(''A'', ''refused'')]"
proof -
  have c: "client (env_of (refuses ''A'')) = Some (refuses ''A'')"
    by (simp add: env_of_def)
  have s: "spec_plan (refuses ''A'') (env_of (refuses ''A''))
             [day ''A'' None, day ''B'' (Some ''2026-05-01'')] []
           = ([Failed ''A'' ''refused'', Created],
        [CreateCall (day ''A'' None),
         UploadReq \<lparr>workoutName = ''A'', workoutDescription = [], workoutSteps = []\<rparr>,
         CreateCall (day ''A'' None),
         UploadReq \<lparr>workoutName = ''A'', workoutDescription = [], workoutSteps = []\<rparr>,
         CreateCall (day ''A'' None),
         UploadReq \<lparr>workoutName = ''A'', workoutDescription = [], workoutSteps = []\<rparr>,
         CreateCall (day ''B'' (Some ''2026-05-01'')),
         UploadReq \<lparr>workoutName = ''B'', workoutDescription = [], workoutSteps = []\<rparr>,
         ScheduleReq 7 ''2026-05-01''])"
    by code_simp
  show ?thesis
    using push_all_workouts_returns_count
            [OF c, of "[day ''A'' None, day ''B'' (Some ''2026-05-01'')]" "[]", unfolded s]
    by (simp del: push_loop.simps spec_plan.simps)
qed

text \<open>
  C2, as stated: the value returned holds the count and the failures.  Two runs on the
  same plan return the same value, 1, and differ in their failures: the value returned
  does not hold them.
\<close>

theorem push_all_workouts_counterexample:
  "fst (push_all_workouts (env_of (refuses ''A'')) [day ''A'' None, day ''B'' None] []) = Inr 1
   \<and> fst (push_all_workouts (env_of (refuses ''B'')) [day ''A'' None, day ''B'' None] []) = Inr 1
   \<and> failed (push_loop (env_of (refuses ''A'')) [day ''A'' None, day ''B'' None] (start []))
       = [(''A'', ''refused'')]
   \<and> failed (push_loop (env_of (refuses ''B'')) [day ''A'' None, day ''B'' None] (start []))
       = [(''B'', ''refused'')]"
  by code_simp

lemma attempt_fails:
  assumes "client e = Some c" and "\<forall>h u. \<exists>x. upload_workout c h u = Inl x"
  shows "\<exists>x. fst (attempt e w tr) = Inl x"
proof -
  have "\<exists>x. fst (create_workout e w tr) = Inl x"
  proof (cases "build_workout_steps (steps w)")
    case (Inl x)
    then show ?thesis using assms(1) by (simp add: create_workout_def Let_def)
  next
    case (Inr gs)
    then show ?thesis
      using assms by (simp add: create_workout_def Let_def)
  qed
  then obtain x t where "create_workout e w tr = (Inl x, t)"
    by (metis fst_conv surj_pair)
  then show ?thesis by (simp add: attempt_def)
qed

lemma retry_all_fail:
  assumes "client e = Some c" and "\<forall>h u. \<exists>x. upload_workout c h u = Inl x"
  shows "retry e w (get_or (name w) ''Unknown'') [0, 1, 2] st
         = st\<lparr>failed := failed st @ [fst (spec_third_error e w (trace st))],
               trace := snd (spec_third_error e w (trace st))\<rparr>"
proof -
  obtain x1 t1 where A1: "attempt e w (trace st) = (Inl x1, t1)"
    using attempt_fails [OF assms, of w "trace st"] by (metis fst_conv surj_pair)
  obtain x2 t2 where A2: "attempt e w t1 = (Inl x2, t2)"
    using attempt_fails [OF assms, of w t1] by (metis fst_conv surj_pair)
  obtain x3 t3 where A3: "attempt e w t2 = (Inl x3, t3)"
    using attempt_fails [OF assms, of w t2] by (metis fst_conv surj_pair)
  show ?thesis
    using A1 A2 A3 by (simp add: spec_third_error_def Let_def)
qed

lemma spec_third_error_calls: "calls (snd (spec_third_error e w tr)) = calls tr @ replicate 3 w"
  by (simp add: spec_third_error_def Let_def attempt_calls numeral_3_eq_3)

lemma push_loop_all_fail:
  assumes "client e = Some c" and "\<forall>h u. \<exists>x. upload_workout c h u = Inl x"
  shows "created_count (push_loop e plan st) = created_count st
     \<and> failed (push_loop e plan st) = failed st @ spec_third_errors e plan (trace st)
     \<and> calls (trace (push_loop e plan st)) = calls (trace st) @ concat (map (replicate 3) plan)"
proof (induction plan arbitrary: st)
  case Nil
  show ?case by simp
next
  case (Cons w plan)
  define s1 where "s1 = retry e w (get_or (name w) ''Unknown'') [0, 1, 2] st"
  have step: "push_loop e (w # plan) st = push_loop e plan s1"
    by (simp add: s1_def del: retry.simps)
  have s1: "s1 = st\<lparr>failed := failed st @ [fst (spec_third_error e w (trace st))],
               trace := snd (spec_third_error e w (trace st))\<rparr>"
    unfolding s1_def by (rule retry_all_fail [OF assms])
  show ?case
    unfolding step
    using Cons.IH [of s1]
    by (simp add: s1 spec_third_error_calls)
qed

lemma length_third_errors: "length (spec_third_errors e plan tr) = length plan"
  by (induction plan arbitrary: tr) simp_all

lemma names_third_errors: "map fst (spec_third_errors e plan tr) = names plan"
  by (induction plan arbitrary: tr) (simp_all add: names_def spec_third_error_def Let_def)

text \<open>
  C3, amended: when every upload raises, \<open>push_all_workouts\<close> returns 0; the local list
  \<open>failed\<close> (not returned) has one entry per workout, in the order of the plan, with the
  message of the third attempt; and every workout is attempted exactly three times, the
  next one after the failure of the one before.
\<close>

theorem push_all_workouts_all_fail:
  assumes "client e = Some c" and "\<forall>h u. \<exists>x. upload_workout c h u = Inl x"
  shows "fst (push_all_workouts e plan tr) = Inr 0
     \<and> failed (push_loop e plan (start tr)) = spec_third_errors e plan tr
     \<and> length (failed (push_loop e plan (start tr))) = length plan
     \<and> map fst (failed (push_loop e plan (start tr))) = names plan
     \<and> calls (trace (push_loop e plan (start tr)))
         = calls tr @ concat (map (replicate 3) plan)"
  using push_loop_all_fail [OF assms, of plan "start tr"] assms(1)
  by (simp add: push_all_workouts_def Let_def start_def length_third_errors names_third_errors)

text \<open>
  Every attempt fails with a longer message than the one before: the messages recorded
  are those of attempts three and six.
\<close>

theorem push_all_workouts_all_fail_witness:
  "fst (push_all_workouts (env_of fails_counting) [day ''A'' None, day ''B'' None] []) = Inr 0
   \<and> failed (push_loop (env_of fails_counting) [day ''A'' None, day ''B'' None] (start []))
       = [(''A'', ''xxxxx''), (''B'', ''xxxxxxxxxxx'')]
   \<and> calls (trace (push_loop (env_of fails_counting) [day ''A'' None, day ''B'' None] (start [])))
       = [day ''A'' None, day ''A'' None, day ''A'' None,
          day ''B'' None, day ''B'' None, day ''B'' None]"
proof -
  have t: "spec_third_errors (env_of fails_counting) [day ''A'' None, day ''B'' None] []
           = [(''A'', ''xxxxx''), (''B'', ''xxxxxxxxxxx'')]"
    by code_simp
  have c: "client (env_of fails_counting) = Some fails_counting"
    by (simp add: env_of_def)
  have u: "\<forall>h u. \<exists>x. upload_workout fails_counting h u = Inl x"
    by (simp add: fails_counting_def)
  show ?thesis
    using push_all_workouts_all_fail [OF c u, of "[day ''A'' None, day ''B'' None]" "[]"] t
    by (simp add: numeral_3_eq_3)
qed

text \<open>
  C3, as stated: the failures are returned.  Two runs whose every upload fails return
  the same value, 0, and differ in the failures they record.
\<close>

theorem push_all_workouts_all_fail_counterexample:
  "fst (push_all_workouts (env_of (always_fails ''timeout'')) [day ''A'' None] []) = Inr 0
   \<and> fst (push_all_workouts (env_of (always_fails ''denied'')) [day ''A'' None] []) = Inr 0
   \<and> failed (push_loop (env_of (always_fails ''timeout'')) [day ''A'' None] (start []))
       = [(''A'', ''timeout'')]
   \<and> failed (push_loop (env_of (always_fails ''denied'')) [day ''A'' None] (start []))
       = [(''A'', ''denied'')]"
  by code_simp

text \<open>
  C10.  In any state of the loop and at any attempt: when \<open>create_workout\<close> returns an
  identifier that is \<open>None\<close> or 0, or when the workout has no date (or an empty one), the
  attempt sends no schedule request, the count of created workouts goes up by one, the
  retry loop ends, and nothing is added to \<open>failed\<close>.
\<close>

theorem retry_success_without_schedule:
  assumes "create_workout e w (trace st) = (Inr wid, tr')"
    and "wid = None \<or> wid = Some 0 \<or> date w = None \<or> date w = Some []"
  shows "retry e w nm (n # ns) st = st\<lparr>created_count := created_count st + 1, trace := tr'\<rparr>
     \<and> schedules tr' = schedules (trace st)
     \<and> created_count (retry e w nm (n # ns) st) = created_count st + 1
     \<and> failed (retry e w nm (n # ns) st) = failed st"
proof -
  have "\<not> (truthy_id wid \<and> truthy_text (date w))"
    using assms(2) by (auto simp: truthy_id_def truthy_text_def)
  with assms(1) have a: "attempt e w (trace st) = (Inr (), tr')"
    by (auto simp: attempt_def)
  have s: "schedules tr' = schedules (trace st)"
    using create_workout_schedules [of e w "trace st"] assms(1) by simp
  show ?thesis
    using a s by simp
qed

text \<open>An answer without identifier for a dated workout; an identifier for an undated one.\<close>

theorem retry_success_without_schedule_witness:
  "retry (env_of (answers None)) (day ''A'' (Some ''2026-05-01'')) ''A'' [0, 1, 2] (start [])
     = (start [])\<lparr>created_count := 1,
          trace := [CreateCall (day ''A'' (Some ''2026-05-01'')),
                    UploadReq \<lparr>workoutName = ''A'', workoutDescription = [],
                                workoutSteps = []\<rparr>]\<rparr>
   \<and> retry (env_of (answers (Some 7))) (day ''B'' None) ''B'' [0, 1, 2] (start [])
     = (start [])\<lparr>created_count := 1,
          trace := [CreateCall (day ''B'' None),
                    UploadReq \<lparr>workoutName = ''B'', workoutDescription = [],
                                workoutSteps = []\<rparr>]\<rparr>"
proof -
  have c1: "create_workout (env_of (answers None)) (day ''A'' (Some ''2026-05-01''))
              (trace (start []))
            = (Inr None, [CreateCall (day ''A'' (Some ''2026-05-01'')),
                    UploadReq \<lparr>workoutName = ''A'', workoutDescription = [],
                                workoutSteps = []\<rparr>])"
    by (simp add: create_workout_def env_of_def answers_def day_def start_def
        build_workout_steps_def get_or_def)
  have c2: "create_workout (env_of (answers (Some 7))) (day ''B'' None) (trace (start []))
            = (Inr (Some 7), [CreateCall (day ''B'' None),
                    UploadReq \<lparr>workoutName = ''B'', workoutDescription = [],
                                workoutSteps = []\<rparr>])"
    by (simp add: create_workout_def env_of_def answers_def day_def start_def
        build_workout_steps_def get_or_def)
  have d2: "date (day ''B'' None) = None"
    by (simp add: day_def)
  show ?thesis
    using retry_success_without_schedule [OF c1, of "''A''" 0 "[1, 2]"]
      retry_success_without_schedule [OF c2, of "''B''" 0 "[1, 2]"] d2
    by (simp add: start_def del: retry.simps)
qed

section \<open>DurationParser on bare numbers\<close>

lemma is_digit_cases:
  "is_digit c \<longleftrightarrow> c = CHR ''0'' \<or> c = CHR ''1'' \<or> c = CHR ''2'' \<or> c = CHR ''3'' \<or> c = CHR ''4''
     \<or> c = CHR ''5'' \<or> c = CHR ''6'' \<or> c = CHR ''7'' \<or> c = CHR ''8'' \<or> c = CHR ''9''"
  by (auto simp: is_digit_def)

lemma digit_val_range: "is_digit c \<Longrightarrow> 0 \<le> digit_val c \<and> digit_val c \<le> 9"
  by (auto simp: is_digit_cases digit_val_def)

lemma numch_not_space: "is_numch c \<Longrightarrow> \<not> is_space c"
  by (auto simp: is_numch_def is_digit_cases is_space_def)

lemma numch_lower: "is_numch c \<Longrightarrow> lower_char c = c"
  by (auto simp: is_numch_def is_digit_cases lower_char_def)

lemma numch_plain:
  "is_numch c \<Longrightarrow> c \<noteq> CHR '':'' \<and> c \<noteq> CHR ''_'' \<and> \<not> is_sign c \<and> c \<noteq> CHR ''-'' \<and> c \<noteq> CHR ''i'' \<and> c \<noteq> CHR ''n''"
  by (auto simp: is_numch_def is_digit_cases is_sign_def)

lemma lower_numch: "list_all is_numch s \<Longrightarrow> lower s = s"
  by (induction s) (simp_all add: lower_def numch_lower)

lemma dropWhile_keep: "s = [] \<or> \<not> P (hd s) \<Longrightarrow> dropWhile P s = s"
  by (cases s) auto

lemma strip_numch: "list_all is_numch s \<Longrightarrow> strip s = s"
proof -
  assume a: "list_all is_numch s"
  have 1: "dropWhile is_space s = s"
    using a by (intro dropWhile_keep) (cases s; simp add: numch_not_space)
  have "list_all is_numch (rev s)" using a by (simp add: list_all_iff)
  then have 2: "dropWhile is_space (rev s) = rev s"
    by (intro dropWhile_keep) (cases "rev s"; simp add: numch_not_space)
  show ?thesis by (simp add: strip_def 1 2)
qed

lemma numch_not_num_space: "is_numch c \<Longrightarrow> \<not> is_num_space c"
  by (auto simp: is_numch_def is_digit_cases is_num_space_def)

lemma num_strip_numch: "list_all is_numch s \<Longrightarrow> num_strip s = s"
proof -
  assume a: "list_all is_numch s"
  have 1: "dropWhile is_num_space s = s"
    using a by (intro dropWhile_keep) (cases s; simp add: numch_not_num_space)
  have "list_all is_numch (rev s)" using a by (simp add: list_all_iff)
  then have 2: "dropWhile is_num_space (rev s) = rev s"
    by (intro dropWhile_keep) (cases "rev s"; simp add: numch_not_num_space)
  show ?thesis by (simp add: num_strip_def 1 2)
qed

lemma re_number_unit_numch:
  assumes "list_all is_numch s" and "list_all (\<lambda>u. u \<noteq> []) alts"
  shows "re_number_unit alts s = None"
proof -
  have t: "takeWhile is_numch s = s" and d: "dropWhile is_numch s = []"
    using assms(1) by (simp_all add: list_all_iff)
  have "find (\<lambda>u. startswith [] u \<and> at_end (drop (length u) [])) alts = None"
    using assms(2) by (induction alts) (auto simp: neq_Nil_conv)
  then show ?thesis
    by (simp add: re_number_unit_def t d match_units_def)
qed

lemma underscores_ok_none:
  "prev \<noteq> CHR ''_'' \<Longrightarrow> CHR ''_'' \<notin> set s \<Longrightarrow> underscores_ok prev s"
  by (induction s arbitrary: prev) auto

lemma foldl_digits:
  "foldl (\<lambda>a c. 10 * a + digit_val c) a ys
   = a * 10 ^ length ys + foldl (\<lambda>a c. 10 * a + digit_val c) 0 ys"
proof (induction ys arbitrary: a)
  case Nil
  show ?case by simp
next
  case (Cons y ys)
  show ?case
    using Cons.IH [of "10 * a + digit_val y"] Cons.IH [of "digit_val y"]
    by (simp add: algebra_simps)
qed

lemma digits_val_append:
  "digits_val (xs @ ys) = digits_val xs * 10 ^ length ys + digits_val ys"
  using foldl_digits [of "digits_val xs" ys] by (simp add: digits_val_def)

lemma digits_val_bounds:
  "list_all is_digit ds \<Longrightarrow> 0 \<le> digits_val ds \<and> digits_val ds < 10 ^ length ds"
proof (induction ds rule: rev_induct)
  case Nil
  show ?case by (simp add: digits_val_def)
next
  case (snoc c ds)
  then have d: "0 \<le> digit_val c \<and> digit_val c \<le> 9" and ih: "0 \<le> digits_val ds \<and> digits_val ds < 10 ^ length ds"
    by (simp_all add: digit_val_range)
  have "digits_val (ds @ [c]) = digits_val ds * 10 + digit_val c"
    using digits_val_append [of ds "[c]"] by (simp add: digits_val_def)
  then show ?case using d ih by simp
qed

lemma trunc_decimal:
  assumes "0 \<le> D" "0 \<le> F" "F < 10 ^ k"
  shows "trunc (of_int D + of_int F / 10 ^ k) = D"
proof -
  have q: "(0::rat) \<le> of_int F / 10 ^ k" using assms(2) by simp
  have "of_int F / (10::rat) ^ k < 1"
    using assms(3) by (simp add: of_int_less_iff [of F "10 ^ k", where ?'a = rat, simplified])
  with q have "\<lfloor>of_int D + of_int F / (10::rat) ^ k\<rfloor> = D"
    by (simp add: floor_unique)
  moreover have "(0::rat) \<le> of_int D + of_int F / 10 ^ k"
    using assms(1) q by simp
  ultimately show ?thesis by (simp add: trunc_def)
qed

lemma parse_duration_numch: "list_all is_numch s \<Longrightarrow> parse_duration s = parse_bare s"
proof -
  assume a: "list_all is_numch s"
  have c: "CHR '':'' \<notin> set s"
    using a numch_plain by (auto simp: list_all_iff)
  show ?thesis
    using c by (simp add: parse_duration_def strip_numch [OF a] lower_numch [OF a]
        re_number_unit_numch [OF a] dist_units_def time_units_def)
qed

lemma digits_numch: "list_all is_digit ds \<Longrightarrow> list_all is_numch ds"
  by (simp add: list_all_iff is_numch_def)

lemma decimal_numch:
  "list_all is_digit ds \<Longrightarrow> list_all is_digit fs \<Longrightarrow> list_all is_numch (ds @ CHR ''.'' # fs)"
  by (auto simp: list_all_iff is_numch_def)

lemma float_body_decimal:
  assumes "ds \<noteq> []" "list_all is_digit ds" "list_all is_digit fs"
  shows "float_body (ds @ CHR ''.'' # fs)
         = Some (of_int (digits_val ds) + of_int (digits_val fs) / 10 ^ length fs)"
proof -
  have nd: "\<not> is_digit (CHR ''.'')" by (simp add: is_digit_def)
  have t1: "takeWhile is_digit (ds @ CHR ''.'' # fs) = ds"
    using assms(2) nd by (simp add: takeWhile_tail list_all_iff)
  have d1: "dropWhile is_digit (ds @ CHR ''.'' # fs) = CHR ''.'' # fs"
    using assms(2) nd by (simp add: dropWhile_append3 list_all_iff)
  have t2: "takeWhile is_digit fs = fs" and d2: "dropWhile is_digit fs = []"
    using assms(3) by (simp_all add: list_all_iff)
  have v: "scale10 (digits_val (ds @ fs)) (- int (length fs))
           = of_int (digits_val ds) + of_int (digits_val fs) / 10 ^ length fs"
  proof (cases "length fs = 0")
    case True
    then show ?thesis by (simp add: scale10_def digits_val_def)
  next
    case False
    then show ?thesis
      by (simp add: scale10_def digits_val_append add_divide_distrib)
  qed
  show ?thesis
    using assms(1) by (simp add: float_body_def t1 d1 t2 d2 exponent_def v)
qed

lemma float_body_digits:
  assumes "ds \<noteq> []" "list_all is_digit ds"
  shows "float_body ds = Some (of_int (digits_val ds))"
proof -
  have t1: "takeWhile is_digit ds = ds" and d1: "dropWhile is_digit ds = []"
    using assms(2) by (simp_all add: list_all_iff)
  show ?thesis
    using assms(1) by (simp add: float_body_def t1 d1 exponent_def scale10_def)
qed

lemma py_float_plain:
  assumes "list_all is_numch s" "s \<noteq> []" "is_digit (hd s)"
  shows "py_float s = (case float_body s of None \<Rightarrow> Inl ValueError | Some q \<Rightarrow> Inr (Fin q))"
proof -
  obtain d r where s: "s = d # r" using assms(2) by (cases s) auto
  have d: "is_numch d" using assms(1) s by simp
  have u: "CHR ''_'' \<notin> set s"
    using assms(1) numch_plain by (auto simp: list_all_iff)
  then have f: "filter (\<lambda>c. c \<noteq> CHR ''_'') s = s"
    by (auto simp: filter_id_conv)
  have ok: "underscores_ok (CHR 0x00) s"
    using u by (intro underscores_ok_none) simp_all
  have un: "unsigned s = s" and ng: "\<not> negative s"
    using d numch_plain [OF d] by (simp_all add: s unsigned_def negative_def)
  have lw: "lower s = s" by (rule lower_numch [OF assms(1)])
  have nk: "s \<noteq> ''inf'' \<and> s \<noteq> ''infinity'' \<and> s \<noteq> ''nan''"
    using numch_plain [OF d] by (auto simp: s)
  show ?thesis
    using nk
    by (cases "float_body s")
      (simp_all add: py_float_def num_strip_numch [OF assms(1)] ok f un ng lw Let_def)
qed


text \<open>A plain numeral of at most fifteen digits: the integer part, times 60.\<close>

lemma parse_duration_plain_numeral:
  assumes "ds \<noteq> []" and "list_all is_digit ds" and "list_all is_digit fs"
    and "length ds + length fs \<le> 15"
  shows "parse_duration ds = Inr (Time (trunc (of_int (digits_val ds)) * 60))
     \<and> parse_duration (ds @ CHR ''.'' # fs)
         = Inr (Time (trunc (of_int (digits_val ds) + of_int (digits_val fs) / 10 ^ length fs)
                      * 60))
     \<and> trunc (of_int (digits_val ds) + of_int (digits_val fs) / 10 ^ length fs)
         = digits_val ds"
proof -
  have h: "is_digit (hd ds)" using assms(1,2) by (cases ds) auto
  have p1: "py_float ds = Inr (Fin (of_int (digits_val ds)))"
    using py_float_plain [OF digits_numch [OF assms(2)] assms(1) h]
      float_body_digits [OF assms(1,2)] by simp
  have h2: "is_digit (hd (ds @ CHR ''.'' # fs))" using h assms(1) by simp
  have p2: "py_float (ds @ CHR ''.'' # fs)
            = Inr (Fin (of_int (digits_val ds) + of_int (digits_val fs) / 10 ^ length fs))"
    using py_float_plain [OF decimal_numch [OF assms(2,3)] _ h2]
      float_body_decimal [OF assms(1,2,3)] by simp
  have t: "trunc (of_int (digits_val ds) + of_int (digits_val fs) / 10 ^ length fs)
           = digits_val ds"
    using digits_val_bounds [OF assms(2)] digits_val_bounds [OF assms(3)]
    by (intro trunc_decimal) simp_all
  show ?thesis
    using t by (simp add: parse_duration_numch [OF digits_numch [OF assms(2)]]
        parse_duration_numch [OF decimal_numch [OF assms(2,3)]] parse_bare_def p1 p2)
qed


lemma startswith_append: "startswith r u \<Longrightarrow> r = u @ drop (length u) r"
  by (induction r u rule: startswith.induct) auto

lemma last_dropWhile: "dropWhile P xs \<noteq> [] \<Longrightarrow> last (dropWhile P xs) = last xs"
proof -
  assume a: "dropWhile P xs \<noteq> []"
  have "last xs = last (takeWhile P xs @ dropWhile P xs)" by simp
  also have "\<dots> = last (dropWhile P xs)" using a by (simp only: last_append if_False)
  finally show ?thesis by simp
qed

lemma re_number_unit_no_unit:
  assumes "d \<noteq> []" and "is_numch (last d)"
    and "list_all (\<lambda>u. u \<noteq> [] \<and> \<not> is_numch (last u)) alts"
  shows "re_number_unit alts d = None"
proof -
  define r where "r = dropWhile is_space (dropWhile is_numch d)"
  have nl: "\<not> is_numch (CHR 0x0A)" by (simp add: is_numch_def is_digit_def)
  have no: "\<not> (startswith r u \<and> at_end (drop (length u) r))" if u: "u \<in> set alts" for u
  proof
    assume m: "startswith r u \<and> at_end (drop (length u) r)"
    have un: "u \<noteq> []" and ul: "\<not> is_numch (last u)"
      using u assms(3) by (auto simp: list_all_iff)
    have ru: "r = u @ drop (length u) r" using m by (simp add: startswith_append)
    then have rn: "r \<noteq> []" using un by auto
    then have r0: "dropWhile is_numch d \<noteq> []"
      unfolding r_def by (metis dropWhile.simps(1))
    have "last r = last (dropWhile is_numch d)"
      using rn unfolding r_def by (rule last_dropWhile)
    also have "\<dots> = last d" using r0 by (rule last_dropWhile)
    finally have lr: "is_numch (last r)" using assms(2) by simp
    from m have "drop (length u) r = [] \<or> drop (length u) r = [CHR 0x0A]"
      by (simp add: at_end_def)
    then show False
    proof
      assume "drop (length u) r = []"
      with ru have "r = u" by simp
      with lr ul show False by simp
    next
      assume "drop (length u) r = [CHR 0x0A]"
      with ru have "r = u @ [CHR 0x0A]" by simp
      then have "last r = CHR 0x0A" by (metis last_snoc)
      with lr nl show False by simp
    qed
  qed
  then have "find (\<lambda>u. startswith r u \<and> at_end (drop (length u) r)) alts = None"
    by (simp add: find_None_iff)
  then show ?thesis
    by (simp add: re_number_unit_def match_units_def r_def Let_def)
qed

lemma trunc_toward_zero:
  "\<bar>of_int (trunc q)\<bar> \<le> \<bar>q\<bar> \<and> \<bar>q\<bar> < \<bar>of_int (trunc q)\<bar> + 1 \<and> 0 \<le> of_int (trunc q) * q"
proof (cases "q < 0")
  case True
  have c: "of_int \<lceil>q\<rceil> - 1 < q \<and> q \<le> of_int \<lceil>q\<rceil>" by (rule ceiling_correct)
  have z: "(of_int \<lceil>q\<rceil> :: rat) \<le> 0" using True by (simp add: ceiling_le_zero)
  have "0 \<le> of_int \<lceil>q\<rceil> * q"
    using z True by (intro mult_nonpos_nonpos) simp_all
  then show ?thesis using True c z by (simp add: trunc_def)
next
  case False
  have f: "of_int \<lfloor>q\<rfloor> \<le> q \<and> q < of_int (\<lfloor>q\<rfloor> + 1)" by (rule floor_correct)
  have z: "(0 :: rat) \<le> of_int \<lfloor>q\<rfloor>" using False by simp
  have "0 \<le> of_int \<lfloor>q\<rfloor> * q"
    using z False by (intro mult_nonneg_nonneg) simp_all
  then show ?thesis using False f z by (simp add: trunc_def)
qed

text \<open>
  C4, amended: let \<open>d\<close> be the text, stripped and in lower case.  When \<open>d\<close> is a bare
  number (\<^verbatim>\<open>float\<close> accepts it with the finite value \<open>q\<close>; it has no colon; it ends in
  a digit or a point, so no unit follows), \<open>parse_duration\<close> returns a time of as many
  seconds as \<open>q\<close> truncated toward zero, times 60: \<^verbatim>\<open>2.5\<close> gives 120 seconds and
  \<^verbatim>\<open>-2.5\<close> gives -120.  Signs, exponents and a leading point are covered.  The two
  bounds (fifteen digits, a magnitude below ten to the fifteenth) keep the number where
  its binary64 value truncates to the same integer as the exact value.
\<close>

theorem parse_duration_bare_float:
  assumes "d = lower (strip text)"
    and "CHR '':'' \<notin> set d"
    and "d \<noteq> []" and "is_numch (last d)"
    and "py_float d = Inr (Fin q)"
    and "length (filter is_digit d) \<le> 15" and "\<bar>q\<bar> < 10 ^ 15"
  shows "parse_duration text = Inr (Time (trunc q * 60))
     \<and> \<bar>of_int (trunc q)\<bar> \<le> \<bar>q\<bar> \<and> \<bar>q\<bar> < \<bar>of_int (trunc q)\<bar> + 1
     \<and> 0 \<le> of_int (trunc q) * q"
proof -
  have 1: "re_number_unit dist_units d = None"
    using assms(3,4) by (intro re_number_unit_no_unit) (simp_all add: dist_units_def is_numch_def is_digit_def)
  have 2: "re_number_unit time_units d = None"
    using assms(3,4) by (intro re_number_unit_no_unit) (simp_all add: time_units_def is_numch_def is_digit_def)
  have "parse_duration text = parse_bare d"
    using assms(2) by (simp add: parse_duration_def assms(1) [symmetric] 1 2)
  also have "\<dots> = Inr (Time (trunc q * 60))"
    by (simp add: parse_bare_def assms(5))
  finally show ?thesis
    using trunc_toward_zero [of q] by simp
qed

text \<open>Two and a half, its negative, an exponent, a leading point, a sign between blanks.\<close>

theorem parse_duration_bare_float_witness:
  "parse_duration ''2.5'' = Inr (Time 120) \<and> parse_duration ''-2.5'' = Inr (Time (- 120))
   \<and> parse_duration ''1e3'' = Inr (Time 60000) \<and> parse_duration ''.5'' = Inr (Time 0)
   \<and> parse_duration '' +7 '' = Inr (Time 420)"
proof -
  have a: "''2.5'' = lower (strip ''2.5'')" "CHR '':'' \<notin> set ''2.5''" "''2.5'' \<noteq> []"
    "is_numch (last ''2.5'')" "py_float ''2.5'' = Inr (Fin (5 / 2))"
    "length (filter is_digit ''2.5'') \<le> 15" "\<bar>5 / 2 :: rat\<bar> < 10 ^ 15"
    by code_simp+
  have b: "''-2.5'' = lower (strip ''-2.5'')" "CHR '':'' \<notin> set ''-2.5''" "''-2.5'' \<noteq> []"
    "is_numch (last ''-2.5'')" "py_float ''-2.5'' = Inr (Fin (- (5 / 2)))"
    "length (filter is_digit ''-2.5'') \<le> 15" "\<bar>- (5 / 2) :: rat\<bar> < 10 ^ 15"
    by code_simp+
  have c: "''1e3'' = lower (strip ''1e3'')" "CHR '':'' \<notin> set ''1e3''" "''1e3'' \<noteq> []"
    "is_numch (last ''1e3'')" "py_float ''1e3'' = Inr (Fin 1000)"
    "length (filter is_digit ''1e3'') \<le> 15" "\<bar>1000 :: rat\<bar> < 10 ^ 15"
    by code_simp+
  have d: "''.5'' = lower (strip ''.5'')" "CHR '':'' \<notin> set ''.5''" "''.5'' \<noteq> []"
    "is_numch (last ''.5'')" "py_float ''.5'' = Inr (Fin (1 / 2))"
    "length (filter is_digit ''.5'') \<le> 15" "\<bar>1 / 2 :: rat\<bar> < 10 ^ 15"
    by code_simp+
  have e: "''+7'' = lower (strip '' +7 '')" "CHR '':'' \<notin> set ''+7''" "''+7'' \<noteq> []"
    "is_numch (last ''+7'')" "py_float ''+7'' = Inr (Fin 7)"
    "length (filter is_digit ''+7'') \<le> 15" "\<bar>7 :: rat\<bar> < 10 ^ 15"
    by code_simp+
  have t: "trunc (5 / 2) = 2" "trunc (- (5 / 2)) = - 2" "trunc 1000 = 1000" "trunc (1 / 2) = 0"
    "trunc 7 = 7"
    by code_simp+
  show ?thesis
    using parse_duration_bare_float [OF a] parse_duration_bare_float [OF b]
      parse_duration_bare_float [OF c] parse_duration_bare_float [OF d]
      parse_duration_bare_float [OF e]
    by (simp only: t) simp
qed

section \<open>TargetParser on heart-rate zones\<close>

lemma find_first:
  "find P xs = Some d \<longleftrightarrow>
   (\<exists>pre post. xs = pre @ d # post \<and> list_all (\<lambda>c. \<not> P c) pre \<and> P d)"
proof (induction xs)
  case Nil
  show ?case by simp
next
  case (Cons x xs)
  show ?case
  proof (cases "P x")
    case True
    have "(\<exists>pre post. x # xs = pre @ d # post \<and> list_all (\<lambda>c. \<not> P c) pre \<and> P d) \<longleftrightarrow> x = d"
    proof
      assume "\<exists>pre post. x # xs = pre @ d # post \<and> list_all (\<lambda>c. \<not> P c) pre \<and> P d"
      then obtain pre post where e: "x # xs = pre @ d # post" and n: "list_all (\<lambda>c. \<not> P c) pre"
        by blast
      show "x = d"
      proof (cases pre)
        case Nil
        with e show ?thesis by simp
      next
        case (Cons p ps)
        with e n True show ?thesis by simp
      qed
    next
      assume "x = d"
      with True show "\<exists>pre post. x # xs = pre @ d # post \<and> list_all (\<lambda>c. \<not> P c) pre \<and> P d"
        by (intro exI [of _ "[]"] exI [of _ xs]) simp
    qed
    with True show ?thesis by auto
  next
    case False
    have "(\<exists>pre post. x # xs = pre @ d # post \<and> list_all (\<lambda>c. \<not> P c) pre \<and> P d)
          \<longleftrightarrow> (\<exists>pre post. xs = pre @ d # post \<and> list_all (\<lambda>c. \<not> P c) pre \<and> P d)"
    proof
      assume "\<exists>pre post. x # xs = pre @ d # post \<and> list_all (\<lambda>c. \<not> P c) pre \<and> P d"
      then obtain pre post where e: "x # xs = pre @ d # post"
        and n: "list_all (\<lambda>c. \<not> P c) pre" and d: "P d"
        by blast
      show "\<exists>pre post. xs = pre @ d # post \<and> list_all (\<lambda>c. \<not> P c) pre \<and> P d"
      proof (cases pre)
        case Nil
        with e d False show ?thesis by simp
      next
        case (Cons p ps)
        with e n d show ?thesis by (intro exI [of _ ps] exI [of _ post]) simp
      qed
    next
      assume "\<exists>pre post. xs = pre @ d # post \<and> list_all (\<lambda>c. \<not> P c) pre \<and> P d"
      then obtain pre post where "xs = pre @ d # post" "list_all (\<lambda>c. \<not> P c) pre" "P d"
        by blast
      with False show "\<exists>pre post. x # xs = pre @ d # post \<and> list_all (\<lambda>c. \<not> P c) pre \<and> P d"
        by (intro exI [of _ "x # pre"] exI [of _ post]) simp
    qed
    with False Cons.IH show ?thesis by simp
  qed
qed

lemma zone_not_none: "HeartRateZone z \<noteq> NoTarget"
  by (simp add: HeartRateZone_def NoTarget_def)

lemma zone_inject: "HeartRateZone z = HeartRateZone z' \<longleftrightarrow> z = z'"
  by (auto simp: HeartRateZone_def)

text \<open>
  C5, amended: for a target that is not empty, not open, jog or easy, and not a pace,
  \<open>parse_target\<close> returns the heart-rate zone \<open>z\<close> exactly when the text in lower case
  contains ``zone'' and \<open>z\<close> is the first digit of the text, wherever that digit stands;
  otherwise it returns no target.
\<close>

theorem parse_target_zone:
  assumes "t \<noteq> []" and "lower t \<notin> set [''open'', ''jog'', ''easy'']"
    and "re_pace (strip t) = None"
  shows "(parse_target t = Inr (HeartRateZone z) \<longleftrightarrow>
            contains (lower t) ''zone''
            \<and> (\<exists>pre d post. t = pre @ d # post
                  \<and> list_all (\<lambda>c. \<not> is_digit c) pre \<and> is_digit d \<and> z = digit_val d))
     \<and> ((\<exists>z'. parse_target t = Inr (HeartRateZone z')) \<or> parse_target t = Inr NoTarget)"
proof -
  have p: "parse_target t = Inr (parse_zone t)"
    using assms by (simp add: parse_target_def)
  show ?thesis
  proof (cases "contains (lower t) ''zone''")
    case False
    then show ?thesis by (simp add: p parse_zone_def zone_not_none [symmetric])
  next
    case True
    show ?thesis
    proof (cases "find is_digit t")
      case None
      then have "\<not> (\<exists>pre d post. t = pre @ d # post
                  \<and> list_all (\<lambda>c. \<not> is_digit c) pre \<and> is_digit d)"
        using find_first [of is_digit t] by auto
      then show ?thesis
        using True None by (auto simp: p parse_zone_def zone_not_none [symmetric])
    next
      case (Some d)
      have u: "(\<exists>pre post. t = pre @ d' # post
                  \<and> list_all (\<lambda>c. \<not> is_digit c) pre \<and> is_digit d') \<longleftrightarrow> d' = d" for d'
        using find_first [of is_digit t d'] Some by auto
      have "(\<exists>pre d' post. t = pre @ d' # post
                  \<and> list_all (\<lambda>c. \<not> is_digit c) pre \<and> is_digit d' \<and> z = digit_val d')
            \<longleftrightarrow> z = digit_val d"
      proof
        assume "\<exists>pre d' post. t = pre @ d' # post
                  \<and> list_all (\<lambda>c. \<not> is_digit c) pre \<and> is_digit d' \<and> z = digit_val d'"
        then obtain pre d' post where "t = pre @ d' # post"
          "list_all (\<lambda>c. \<not> is_digit c) pre" "is_digit d'" and z: "z = digit_val d'"
          by blast
        then have "d' = d" using u [of d'] by blast
        with z show "z = digit_val d" by simp
      next
        assume z: "z = digit_val d"
        obtain pre post where "t = pre @ d # post"
          "list_all (\<lambda>c. \<not> is_digit c) pre" "is_digit d"
          using u [of d] by blast
        with z show "\<exists>pre d' post. t = pre @ d' # post
                  \<and> list_all (\<lambda>c. \<not> is_digit c) pre \<and> is_digit d' \<and> z = digit_val d'"
          by blast
      qed
      then show ?thesis
        using True Some by (auto simp: p parse_zone_def zone_inject)
    qed
  qed
qed

text \<open>A zone with its digit, and a zone spelled out.\<close>

theorem parse_target_zone_witness:
  "parse_target ''Zone 3'' = Inr (HeartRateZone 3)
   \<and> parse_target ''zone two'' = Inr NoTarget"
proof -
  have a: "''Zone 3'' \<noteq> []" "lower ''Zone 3'' \<notin> set [''open'', ''jog'', ''easy'']"
    "re_pace (strip ''Zone 3'') = None"
    "''zone two'' \<noteq> []" "lower ''zone two'' \<notin> set [''open'', ''jog'', ''easy'']"
    "re_pace (strip ''zone two'') = None"
    by code_simp+
  have c: "contains (lower ''Zone 3'') ''zone''" by code_simp
  have d: "''Zone 3'' = ''Zone '' @ CHR ''3'' # [] \<and> list_all (\<lambda>c. \<not> is_digit c) ''Zone ''
           \<and> is_digit (CHR ''3'') \<and> (3::int) = digit_val (CHR ''3'')"
    by code_simp
  have n: "\<not> (\<exists>pre d post. ''zone two'' = pre @ d # post
                  \<and> list_all (\<lambda>c. \<not> is_digit c) pre \<and> is_digit d \<and> z = digit_val d)" for z
  proof -
    have "find is_digit ''zone two'' = None" by code_simp
    then show ?thesis using find_first [of is_digit "''zone two''"] by auto
  qed
  have 1: "parse_target ''Zone 3'' = Inr (HeartRateZone 3)"
    using parse_target_zone [OF a(1,2,3), of 3] c d by blast
  have "parse_target ''zone two'' \<noteq> Inr (HeartRateZone z)" for z
    using parse_target_zone [OF a(4,5,6), of z] n [of z] by simp
  then have 2: "parse_target ''zone two'' = Inr NoTarget"
    using parse_target_zone [OF a(4,5,6), of 0] by simp
  from 1 2 show ?thesis by simp
qed

end
